theory Spec2Isabelle
  imports Complex_Main "HOL-Library.Word" "HOL-Library.Log_Nat" "HOL-Library.State_Monad"
begin

unbundle bit_operations_syntax

section \<open>Bytes, errors and library primitives\<close>

type_synonym byte = "8 word"

text \<open>
  Every \<^verbatim>\<open>fmt.Errorf\<close> of package \<^verbatim>\<open>qhash\<close> is one constructor; an error wrapped
  with \<^verbatim>\<open>%w\<close> carries the inner error. \<open>Panic\<close> stands for a run-time panic of Go
  (a negative length given to \<^verbatim>\<open>make\<close>, a slice bound out of range).
\<close>

datatype error =
    EmptyDataNotAllowed
  | SaltGenerationFailed error
  | InvalidNumberOfStages
  | MasterSaltGenerationFailed
  | StageSaltGenerationFailed nat
  | TimestampSaltGenerationFailed
  | MetaSaltGenerationFailed
  | InsufficientStageSalts
  | SeedGenerationFailed error
  | EmptyInputData
  | InsufficientHashBytes
  | TrajectoryComputationFailed error
  | NilParameters
  | IterationsOutOfSafeRange int
  | InvalidOutputSize int
  | SigmaOutOfRange
  | RhoOutOfRange
  | BetaOutOfRange
  | DtOutOfRange
  | WarmUpStepFailed nat error
  | IterationFailed nat error
  | XCoordinateOverflow
  | YCoordinateOverflow
  | ZCoordinateOverflow
  | EmptyStreamGenerated
  | NilBigFloat
  | QuantumFinalizationFailed error
  | InvalidInput
  | EmptyInput
  | LorenzMixFailed error
  | HyperchaosMixFailed error
  | LatticeMixFailed error
  | InvalidStoredHash
  | HashSizeMismatch int int
  | RecomputationFailed error
  | UnsupportedHashSize int
  | StageIterationsOutOfSafeRange nat
  | StageSigmaInvalid nat
  | StageRhoInvalid nat
  | StageBetaInvalid nat
  | StageDtInvalid nat
  | Panic

text \<open>
  The hash functions of \<^verbatim>\<open>crypto/sha256\<close> and \<^verbatim>\<open>crypto/sha512\<close> and the encoder
  \<^verbatim>\<open>base64.StdEncoding.EncodeToString\<close> belong to Go's standard library, not to this
  repository. They are parameters of the model: every function below that hashes takes
  the record of primitives as its first argument, and every theorem holds for all of them.
\<close>

record prims =
  sha256 :: "byte list \<Rightarrow> byte list"
  sha384 :: "byte list \<Rightarrow> byte list"
  sha512 :: "byte list \<Rightarrow> byte list"
  base64 :: "byte list \<Rightarrow> string"

text \<open>
  \<^verbatim>\<open>sha256.Sum256\<close> returns a \<^verbatim>\<open>[32]byte\<close>, \<^verbatim>\<open>sha512.Sum384\<close> a \<^verbatim>\<open>[48]byte\<close> and
  \<^verbatim>\<open>sha512.Sum512\<close> a \<^verbatim>\<open>[64]byte\<close>: the array types fix the lengths, whatever the
  function computes. \<open>fit\<close> gives a byte list that length.
\<close>

definition fit :: "nat \<Rightarrow> byte list \<Rightarrow> byte list" where
  "fit n bs = take n (bs @ replicate n 0)"

definition Sum256 :: "prims \<Rightarrow> byte list \<Rightarrow> byte list" where
  "Sum256 P bs = fit 32 (sha256 P bs)"

definition Sum384 :: "prims \<Rightarrow> byte list \<Rightarrow> byte list" where
  "Sum384 P bs = fit 48 (sha384 P bs)"

definition Sum512 :: "prims \<Rightarrow> byte list \<Rightarrow> byte list" where
  "Sum512 P bs = fit 64 (sha512 P bs)"

text \<open>Go's integer division truncates towards zero.\<close>

definition go_div :: "int \<Rightarrow> int \<Rightarrow> int" where
  "go_div a b = sgn a * sgn b * (\<bar>a\<bar> div \<bar>b\<bar>)"

section \<open>Arbitrary-precision floats (\<^verbatim>\<open>math/big.Float\<close>)\<close>

text \<open>
  A \<^verbatim>\<open>big.Float\<close> is a precision (the number of mantissa bits) and a value. All floats of
  this package are made with the default rounding mode, to nearest with ties to even, and
  their exponents stay far from the 32-bit exponent range, so a value is a rational number
  and every operation is the exact operation followed by rounding to the precision of the
  receiver. \<open>rexp q\<close> is the binary exponent \<open>\<lfloor>log\<^sub>2 \<bar>q\<bar>\<rfloor>\<close> of a non-zero \<open>q\<close>.
\<close>

record bigfloat =
  bprec :: nat
  bval :: rat

definition rexp :: "rat \<Rightarrow> int" where
  "rexp q = (let (n, d) = quotient_of q; k = bitlen \<bar>n\<bar> - bitlen d
             in if 2 powi k \<le> \<bar>q\<bar> then k else k - 1)"

definition round_half_even :: "rat \<Rightarrow> int" where
  "round_half_even t = (let f = \<lfloor>t\<rfloor>; r = t - of_int f
     in if r < 1/2 then f else if 1/2 < r then f + 1 else if even f then f else f + 1)"

definition round_to :: "nat \<Rightarrow> rat \<Rightarrow> rat" where
  "round_to p q = (if q = 0 then 0
     else let s = rexp q + 1 - int p
          in of_int (round_half_even (q / 2 powi s)) * 2 powi s)"

text \<open>\<^verbatim>\<open>new(big.Float)\<close>: the zero value, of precision 0.\<close>

definition bf_new :: bigfloat where
  "bf_new = \<lparr>bprec = 0, bval = 0\<rparr>"

text \<open>
  \<^verbatim>\<open>z.Add(x, y)\<close>, \<^verbatim>\<open>z.Sub(x, y)\<close>, \<^verbatim>\<open>z.Mul(x, y)\<close>, \<^verbatim>\<open>z.Quo(x, y)\<close>: if the precision of the
  receiver \<open>z\<close> is 0 it becomes the larger of the operands' precisions; the exact result
  is rounded to it. The first argument is the receiver before the call. (\<^verbatim>\<open>Quo\<close> is only
  ever called with the divisor \<open>2\<^sup>6\<^sup>4\<close>.)
\<close>

definition bf_op :: "(rat \<Rightarrow> rat \<Rightarrow> rat) \<Rightarrow> bigfloat \<Rightarrow> bigfloat \<Rightarrow> bigfloat \<Rightarrow> bigfloat" where
  "bf_op f z x y =
     (let p = (if bprec z = 0 then max (bprec x) (bprec y) else bprec z)
      in \<lparr>bprec = p, bval = round_to p (f (bval x) (bval y))\<rparr>)"

definition bf_Add :: "bigfloat \<Rightarrow> bigfloat \<Rightarrow> bigfloat \<Rightarrow> bigfloat" where
  "bf_Add = bf_op (+)"

definition bf_Sub :: "bigfloat \<Rightarrow> bigfloat \<Rightarrow> bigfloat \<Rightarrow> bigfloat" where
  "bf_Sub = bf_op (-)"

definition bf_Mul :: "bigfloat \<Rightarrow> bigfloat \<Rightarrow> bigfloat \<Rightarrow> bigfloat" where
  "bf_Mul = bf_op (*)"

definition bf_Quo :: "bigfloat \<Rightarrow> bigfloat \<Rightarrow> bigfloat \<Rightarrow> bigfloat" where
  "bf_Quo = bf_op (/)"

text \<open>\<^verbatim>\<open>z.Copy(x)\<close> takes precision and value of \<open>x\<close>.\<close>

definition bf_Copy :: "bigfloat \<Rightarrow> bigfloat \<Rightarrow> bigfloat" where
  "bf_Copy z x = x"

text \<open>\<^verbatim>\<open>z.SetPrec(p)\<close>: precision 0 makes the value 0; a smaller precision rounds.\<close>

definition bf_SetPrec :: "bigfloat \<Rightarrow> nat \<Rightarrow> bigfloat" where
  "bf_SetPrec z p =
     (if p = 0 then \<lparr>bprec = 0, bval = 0\<rparr>
      else \<lparr>bprec = p, bval = (if p < bprec z then round_to p (bval z) else bval z)\<rparr>)"

text \<open>\<^verbatim>\<open>z.SetUint64(u)\<close>: precision 64 when it was 0.\<close>

definition bf_SetUint64 :: "bigfloat \<Rightarrow> 64 word \<Rightarrow> bigfloat" where
  "bf_SetUint64 z u =
     (let p = (if bprec z = 0 then 64 else bprec z)
      in \<lparr>bprec = p, bval = (if p < 64 then round_to p (of_nat (unat u)) else of_nat (unat u))\<rparr>)"

text \<open>\<^verbatim>\<open>z.SetInt(n)\<close>: precision \<open>max (n.BitLen()) 64\<close> when it was 0.\<close>

definition bf_SetInt :: "bigfloat \<Rightarrow> int \<Rightarrow> bigfloat" where
  "bf_SetInt z n =
     (let bits = nat (bitlen \<bar>n\<bar>);
          p = (if bprec z = 0 then max bits 64 else bprec z)
      in \<lparr>bprec = p, bval = (if p < bits then round_to p (of_int n) else of_int n)\<rparr>)"

text \<open>
  A \<^verbatim>\<open>float64\<close> constant of the source is the decimal literal rounded to 53 bits;
  \<^verbatim>\<open>big.NewFloat(v)\<close> has precision 53 and the value of \<open>v\<close>.
\<close>

definition float64_lit :: "rat \<Rightarrow> rat" where
  "float64_lit q = round_to 53 q"

definition NewFloat :: "rat \<Rightarrow> bigfloat" where
  "NewFloat v = \<lparr>bprec = 53, bval = v\<rparr>"

text \<open>\<^verbatim>\<open>x.Int(nil)\<close> truncates towards zero; \<^verbatim>\<open>x.Sign()\<close> is the sign of the value.\<close>

definition bf_Int :: "bigfloat \<Rightarrow> int" where
  "bf_Int x = (if 0 \<le> bval x then \<lfloor>bval x\<rfloor> else \<lceil>bval x\<rceil>)"

definition bf_Sign :: "bigfloat \<Rightarrow> int" where
  "bf_Sign x = (if bval x < 0 then -1 else if bval x = 0 then 0 else 1)"

text \<open>
  \<^verbatim>\<open>x.Float64()\<close>: the nearest \<^verbatim>\<open>float64\<close>, with the reduced precision of denormals,
  underflow to zero below half the smallest denormal and overflow to an infinity above the
  largest exponent, as \<^verbatim>\<open>math/big\<close> computes it.
\<close>

datatype float64 = F64 rat | F64PosInf | F64NegInf

definition Float64 :: "bigfloat \<Rightarrow> float64" where
  "Float64 x =
     (let q = bval x in
      if q = 0 then F64 0
      else let e = rexp q;
               p = (if e < - 1022 then 53 + 1022 + e else 53)
           in if p < 0 \<or> (p = 0 \<and> \<bar>q\<bar> = 2 powi e) then F64 0
              else if p = 0 then F64 (sgn q * 2 powi (- 1074))
              else let r = round_to (nat p) q
                   in if 1023 < rexp r then (if q < 0 then F64NegInf else F64PosInf)
                      else F64 r)"

text \<open>The comparisons of the source on \<^verbatim>\<open>float64\<close> values.\<close>

fun f64_le :: "float64 \<Rightarrow> rat \<Rightarrow> bool" where
  "f64_le (F64 a) c = (a \<le> c)"
| "f64_le F64PosInf c = False"
| "f64_le F64NegInf c = True"

fun f64_gt :: "float64 \<Rightarrow> rat \<Rightarrow> bool" where
  "f64_gt (F64 a) c = (c < a)"
| "f64_gt F64PosInf c = True"
| "f64_gt F64NegInf c = False"

fun IsInf :: "float64 \<Rightarrow> bool" where
  "IsInf (F64 a) = False"
| "IsInf F64PosInf = True"
| "IsInf F64NegInf = True"

fun f64_Abs :: "float64 \<Rightarrow> float64" where
  "f64_Abs (F64 a) = F64 \<bar>a\<bar>"
| "f64_Abs F64PosInf = F64PosInf"
| "f64_Abs F64NegInf = F64PosInf"

section \<open>Seed derivation (\<^verbatim>\<open>seedBig\<close>, trajectory.go)\<close>

text \<open>\<^verbatim>\<open>binary.BigEndian.Uint64\<close> on the first eight bytes.\<close>

definition BigEndian_Uint64 :: "byte list \<Rightarrow> 64 word" where
  "BigEndian_Uint64 b = foldl (\<lambda>acc x. push_bit 8 acc OR ucast x) 0 (take 8 b)"

definition denom :: bigfloat where
  "denom = bf_SetPrec (bf_SetInt bf_new (2 ^ 64)) 128"

definition mk :: "byte list \<Rightarrow> nat \<Rightarrow> error + bigfloat" where
  "mk h off =
     (if length h < off + 8 then Inl InsufficientHashBytes
      else let u = BigEndian_Uint64 (take 8 (drop off h));
               f0 = bf_SetPrec (bf_SetUint64 bf_new u) 128;
               f1 = bf_Quo f0 f0 denom;
               f2 = bf_Mul f1 f1 (NewFloat 40)
           in Inr (bf_Sub f2 f2 (NewFloat 20)))"

definition seedBig :: "prims \<Rightarrow> byte list \<Rightarrow> byte list \<Rightarrow> error + (bigfloat \<times> bigfloat \<times> bigfloat)" where
  "seedBig P data salt =
     (if data = [] \<or> salt = [] then Inl EmptyInputData
      else let combined = data @ salt;
               h = Sum256 P combined
           in case mk h 0 of Inl e \<Rightarrow> Inl e | Inr x \<Rightarrow>
              (case mk h 8 of Inl e \<Rightarrow> Inl e | Inr y \<Rightarrow>
              (case mk h 16 of Inl e \<Rightarrow> Inl e | Inr z \<Rightarrow> Inr (x, y, z))))"

section \<open>The trajectory engine (trajectory.go)\<close>

text \<open>
  \<^verbatim>\<open>byte(fracInt.Uint64() & 0xFF)\<close>: \<^verbatim>\<open>Uint64\<close> gives the low 64 bits of the magnitude.
\<close>

definition low_byte :: "int \<Rightarrow> byte" where
  "low_byte n = ucast ((word_of_int \<bar>n\<bar> :: 64 word) AND 0xFF)"

text \<open>The part of \<^verbatim>\<open>discretize\<close> and \<^verbatim>\<open>discretizeWithShift\<close> after the copy \<open>c\<close> is made.\<close>

definition frac_byte :: "bigfloat \<Rightarrow> byte" where
  "frac_byte c =
     (let intPart = bf_Int c;
          frac0 = bf_Sub bf_new c (bf_SetInt bf_new intPart);
          frac1 = (if bf_Sign frac0 < 0 then bf_Add frac0 frac0 (NewFloat 1) else frac0);
          frac2 = bf_Mul frac1 frac1 (NewFloat 256);
          fracInt = bf_Int frac2
      in low_byte fracInt)"

definition discretize :: "bigfloat option \<Rightarrow> error + byte" where
  "discretize f =
     (case f of None \<Rightarrow> Inl NilBigFloat
      | Some v \<Rightarrow> let c = bf_SetPrec (bf_Copy bf_new v) 128 in Inr (frac_byte c))"

definition discretizeWithShift :: "bigfloat option \<Rightarrow> nat \<Rightarrow> error + byte" where
  "discretizeWithShift f shift =
     (case f of None \<Rightarrow> Inl NilBigFloat
      | Some v \<Rightarrow>
          let c0 = bf_SetPrec (bf_Copy bf_new v) 128;
              shiftFactor = bf_SetInt bf_new (push_bit shift 1);
              c = bf_Mul c0 c0 shiftFactor
          in Inr (frac_byte c))"

text \<open>The overflow test of \<^verbatim>\<open>lorenzStep\<close>; \<^verbatim>\<open>Float64\<close> never gives a NaN.\<close>

definition overflowed :: "bigfloat \<Rightarrow> bool" where
  "overflowed v = (let vf = Float64 v in IsInf vf \<or> f64_gt (f64_Abs vf) (10 ^ 10))"

text \<open>
  \<^verbatim>\<open>lorenzStep\<close> updates \<open>x\<close>, \<open>y\<close>, \<open>z\<close> in place; here it returns the new coordinates.
  The three derivatives are computed from the old coordinates before any is updated.
\<close>

definition lorenzStep ::
  "bigfloat \<Rightarrow> bigfloat \<Rightarrow> bigfloat \<Rightarrow> bigfloat \<Rightarrow> bigfloat \<Rightarrow> bigfloat \<Rightarrow> bigfloat
   \<Rightarrow> error + (bigfloat \<times> bigfloat \<times> bigfloat)" where
  "lorenzStep x y z sigma rho beta dt =
     (let dx = bf_Mul bf_new sigma (bf_Sub bf_new y x);
          dy = bf_Sub bf_new (bf_Mul bf_new x (bf_Sub bf_new rho z)) y;
          dz = bf_Sub bf_new (bf_Mul bf_new x y) (bf_Mul bf_new beta z);
          x' = bf_Add x x (bf_Mul bf_new dx dt);
          y' = bf_Add y y (bf_Mul bf_new dy dt);
          z' = bf_Add z z (bf_Mul bf_new dz dt)
      in if overflowed x' then Inl XCoordinateOverflow
         else if overflowed y' then Inl YCoordinateOverflow
         else if overflowed z' then Inl ZCoordinateOverflow
         else Inr (x', y', z'))"

text \<open>
  The warm-up loop \<^verbatim>\<open>for i := 0; i < discard; i++\<close>: the first argument counts the steps
  left, the second is \<open>i\<close>.
\<close>

fun warmUp ::
  "nat \<Rightarrow> nat \<Rightarrow> bigfloat \<times> bigfloat \<times> bigfloat \<Rightarrow> bigfloat \<Rightarrow> bigfloat \<Rightarrow> bigfloat \<Rightarrow> bigfloat
   \<Rightarrow> error + (bigfloat \<times> bigfloat \<times> bigfloat)" where
  "warmUp 0 i s sigma rho beta dt = Inr s"
| "warmUp (Suc n) i (x, y, z) sigma rho beta dt =
     (case lorenzStep x y z sigma rho beta dt of
        Inl e \<Rightarrow> Inl (WarmUpStepFailed i e)
      | Inr s' \<Rightarrow> warmUp n (Suc i) s' sigma rho beta dt)"

text \<open>
  The bytes one iteration appends to the stream. The errors of \<^verbatim>\<open>discretizeWithShift\<close>
  are dropped by the source (\<^verbatim>\<open>bx2, _ := ...\<close>), and the byte is 0 on error.
\<close>

definition shifted :: "bigfloat \<Rightarrow> nat \<Rightarrow> byte" where
  "shifted v shift = (case discretizeWithShift (Some v) shift of Inl e \<Rightarrow> 0 | Inr b \<Rightarrow> b)"

definition extractBytes :: "int \<Rightarrow> bigfloat \<Rightarrow> bigfloat \<Rightarrow> bigfloat \<Rightarrow> error + byte list" where
  "extractBytes outSize x y z =
     (case discretize (Some x) of Inl e \<Rightarrow> Inl e | Inr b1 \<Rightarrow>
     (case discretize (Some y) of Inl e \<Rightarrow> Inl e | Inr b2 \<Rightarrow>
     (case discretize (Some z) of Inl e \<Rightarrow> Inl e | Inr b3 \<Rightarrow>
        Inr ([b1, b2, b3]
             @ (if 48 \<le> outSize then [shifted x 8, shifted y 8, shifted z 8] else [])
             @ (if 64 \<le> outSize then [shifted x 16, shifted y 16, shifted z 16] else [])
             @ (if 128 \<le> outSize then [shifted x 24, shifted y 24, shifted z 24] else [])))))"

text \<open>The stream loop \<^verbatim>\<open>for i := 0; i < iterations; i++\<close>, with the stream so far.\<close>

fun streamLoop ::
  "nat \<Rightarrow> nat \<Rightarrow> int \<Rightarrow> bigfloat \<times> bigfloat \<times> bigfloat \<Rightarrow> bigfloat \<Rightarrow> bigfloat \<Rightarrow> bigfloat \<Rightarrow> bigfloat
   \<Rightarrow> byte list \<Rightarrow> error + byte list" where
  "streamLoop 0 i outSize s sigma rho beta dt stream = Inr stream"
| "streamLoop (Suc n) i outSize (x, y, z) sigma rho beta dt stream =
     (case lorenzStep x y z sigma rho beta dt of
        Inl e \<Rightarrow> Inl (IterationFailed i e)
      | Inr (x', y', z') \<Rightarrow>
          (case extractBytes outSize x' y' z' of
             Inl e \<Rightarrow> Inl e
           | Inr bs \<Rightarrow> streamLoop n (Suc i) outSize (x', y', z') sigma rho beta dt (stream @ bs)))"

text \<open>
  The XOR fold. Round 1 fills the block; every later round updates each byte from its
  own old value and two stream bytes.
\<close>

definition foldRound1 :: "nat \<Rightarrow> byte list \<Rightarrow> byte list" where
  "foldRound1 outSize stream =
     map (\<lambda>i. stream ! (i mod length stream) XOR stream ! ((i * 7) mod length stream))
         [0..<outSize]"

definition foldRound :: "nat \<Rightarrow> nat \<Rightarrow> byte list \<Rightarrow> byte list \<Rightarrow> byte list" where
  "foldRound a b stream hash =
     map (\<lambda>i. hash ! i XOR (stream ! ((i * a) mod length stream) XOR stream ! ((i * b) mod length stream)))
         [0..<length hash]"

definition xorFold :: "int \<Rightarrow> byte list \<Rightarrow> byte list" where
  "xorFold outSize stream =
     (let h1 = foldRound1 (nat outSize) stream;
          h2 = foldRound 11 13 stream h1;
          h3 = (if 48 \<le> outSize then foldRound 17 19 stream h2 else h2);
          h4 = (if 64 \<le> outSize then foldRound 23 29 stream h3 else h3);
          h5 = (if 128 \<le> outSize then foldRound 31 37 stream h4 else h4)
      in h5)"

definition MinIterations :: int where "MinIterations = 1000"
definition MaxIterations :: int where "MaxIterations = 100000"

text \<open>
  The entropy stream of a call, after the checks of the arguments: the copies of the
  seeds at precision 128, the warm-up and the stream loop.
\<close>

definition entropyStream ::
  "bigfloat \<Rightarrow> bigfloat \<Rightarrow> bigfloat \<Rightarrow> bigfloat \<Rightarrow> bigfloat \<Rightarrow> bigfloat \<Rightarrow> bigfloat
   \<Rightarrow> int \<Rightarrow> int \<Rightarrow> int \<Rightarrow> error + byte list" where
  "entropyStream x0 y0 z0 sigma rho beta dt iterations discard outSize =
     (let x = bf_SetPrec (bf_Copy bf_new x0) 128;
          y = bf_SetPrec (bf_Copy bf_new y0) 128;
          z = bf_SetPrec (bf_Copy bf_new z0) 128
      in case warmUp (nat discard) 0 (x, y, z) sigma rho beta dt of
           Inl e \<Rightarrow> Inl e
         | Inr s \<Rightarrow> streamLoop (nat iterations) 0 outSize s sigma rho beta dt [])"

definition TrajectoryToHashBig ::
  "bigfloat option \<Rightarrow> bigfloat option \<Rightarrow> bigfloat option
   \<Rightarrow> bigfloat option \<Rightarrow> bigfloat option \<Rightarrow> bigfloat option \<Rightarrow> bigfloat option
   \<Rightarrow> int \<Rightarrow> int \<Rightarrow> int \<Rightarrow> error + byte list" where
  "TrajectoryToHashBig x0 y0 z0 sigma rho beta dt iterations discard outSize =
     (case (x0, y0, z0, sigma, rho, beta, dt) of
        (Some vx, Some vy, Some vz, Some vsigma, Some vrho, Some vbeta, Some vdt) \<Rightarrow>
          if iterations < MinIterations \<or> MaxIterations < iterations
            then Inl (IterationsOutOfSafeRange iterations)
          else if outSize \<le> 0 \<or> 128 < outSize then Inl (InvalidOutputSize outSize)
          else if f64_le (Float64 vsigma) 0 \<or> f64_gt (Float64 vsigma) 100 then Inl SigmaOutOfRange
          else if f64_le (Float64 vrho) 0 \<or> f64_gt (Float64 vrho) 100 then Inl RhoOutOfRange
          else if f64_le (Float64 vbeta) 0 \<or> f64_gt (Float64 vbeta) 100 then Inl BetaOutOfRange
          else if f64_le (Float64 vdt) 0 \<or> f64_gt (Float64 vdt) (float64_lit (1/10))
            then Inl DtOutOfRange
          else (case entropyStream vx vy vz vsigma vrho vbeta vdt iterations discard outSize of
                  Inl e \<Rightarrow> Inl e
                | Inr stream \<Rightarrow>
                    if stream = [] then Inl EmptyStreamGenerated
                    else Inr (xorFold outSize stream))
      | _ \<Rightarrow> Inl NilParameters)"

section \<open>Types (types.go)\<close>

type_synonym HashSize = int

definition Size256 :: HashSize where "Size256 = 256"
definition Size384 :: HashSize where "Size384 = 384"
definition Size512 :: HashSize where "Size512 = 512"
definition Size1024 :: HashSize where "Size1024 = 1024"


text \<open>
  The four \<^verbatim>\<open>*big.Float\<close> of a stage are set by the constructor and never nil, so they are
  values here.
\<close>

record LorenzStage =
  Sigma :: bigfloat
  Rho :: bigfloat
  Beta :: bigfloat
  Dt :: bigfloat
  Iterations :: int
  StageID :: int
  Description :: string

record HierarchicalSalt =
  MasterSalt :: "byte list"
  StageSalts :: "byte list list"
  TimestampSalt :: "byte list"
  MetaSalt :: "byte list"
  Salt_HashSize :: int

text \<open>The fields \<^verbatim>\<open>Stage\<close>, \<^verbatim>\<open>Iteration\<close>, \<^verbatim>\<open>Hash\<close>, \<^verbatim>\<open>Size\<close> of a checkpoint.\<close>

record TrajectoryCheckpoint =
  cp_Stage :: int
  cp_Iteration :: int
  cp_Hash :: string
  cp_Size :: int

text \<open>A value of \<^verbatim>\<open>map[string]interface{}\<close> is a \<^verbatim>\<open>float64\<close> or an \<^verbatim>\<open>int\<close> here.\<close>

datatype pvalue = PFloat rat | PInt int

type_synonym params = "string \<rightharpoonup> pvalue"

text \<open>\<^verbatim>\<open>Salt\<close> is a pointer: \<open>None\<close> is nil.\<close>

record HardenedSaltedHash =
  Hash :: "byte list"
  Salt :: "HierarchicalSalt option"
  Checkpoints :: "TrajectoryCheckpoint list"
  ComputeTime :: int
  MemoryUsed :: int
  Parameters :: params
  Algorithm :: string
  Version :: string
  HashSize :: int

text \<open>\<^verbatim>\<open>stages\<close> is a Go map: a missing key reads as the nil slice.\<close>

record HardenedLorenzHasher =
  stages :: "HashSize \<rightharpoonup> LorenzStage list"
  memoryHardness :: int
  minComputeTime :: int
  hashSize :: HashSize

definition stagesOf :: "HardenedLorenzHasher \<Rightarrow> LorenzStage list" where
  "stagesOf h = (case stages h (hashSize h) of None \<Rightarrow> [] | Some l \<Rightarrow> l)"

text \<open>
  What a call reads from the machine: the random source (\<open>None\<close> when \<^verbatim>\<open>rand.Read\<close>
  fails), the Unix time in seconds, the two readings of \<^verbatim>\<open>time.Since(start)\<close> in
  \<^verbatim>\<open>compute\<close> (before the sleep and at the return, in nanoseconds) and \<^verbatim>\<open>m.Alloc\<close>.
\<close>

record runtime =
  randRead :: "nat \<Rightarrow> byte list option"
  nowUnix :: int
  sinceBeforeSleep :: int
  sinceAtReturn :: int
  memAlloc :: nat

section \<open>Adaptive parameters and salt chains (adaptive.go)\<close>

text \<open>
  \<^verbatim>\<open>float64\<close> arithmetic, each operation rounded to 53 bits (the values are far from
  overflow and underflow).
\<close>

definition f64_add :: "rat \<Rightarrow> rat \<Rightarrow> rat" where "f64_add a b = round_to 53 (a + b)"
definition f64_sub :: "rat \<Rightarrow> rat \<Rightarrow> rat" where "f64_sub a b = round_to 53 (a - b)"
definition f64_mul :: "rat \<Rightarrow> rat \<Rightarrow> rat" where "f64_mul a b = round_to 53 (a * b)"
definition f64_div :: "rat \<Rightarrow> rat \<Rightarrow> rat" where "f64_div a b = round_to 53 (a / b)"

definition float64_of_byte :: "byte \<Rightarrow> rat" where
  "float64_of_byte b = of_nat (unat b)"

definition deriveAdaptiveParameters :: "prims \<Rightarrow> byte list \<Rightarrow> byte list \<Rightarrow> params" where
  "deriveAdaptiveParameters P data salt =
     (let combined = data @ salt;
          h = Sum256 P combined;
          u = (\<lambda>k. f64_div (float64_of_byte (h ! k)) 255)
      in [''iteration_multiplier'' \<mapsto> PFloat (f64_add (float64_lit (8/10)) (f64_mul (u 0) (float64_lit (4/10)))),
          ''dt_scale'' \<mapsto> PFloat (f64_add (float64_lit (9/10)) (f64_mul (u 1) (float64_lit (2/10)))),
          ''memory_multiplier'' \<mapsto> PFloat (f64_add 1 (f64_mul (u 2) 1)),
          ''sigma_perturbation'' \<mapsto> PFloat (f64_mul (f64_sub (u 3) (1/2)) 1),
          ''rho_perturbation'' \<mapsto> PFloat (f64_mul (f64_sub (u 4) (1/2)) 2),
          ''beta_perturbation'' \<mapsto> PFloat (f64_mul (f64_sub (u 5) (1/2)) (1/2)),
          ''quantum_resistance_level'' \<mapsto> PInt (int (unat (h ! 6)) mod 4 + 1)])"

text \<open>The loop of \<^verbatim>\<open>deriveSaltLR\<close>: the first byte of each digest, the digest fed back.\<close>

fun saltChain :: "prims \<Rightarrow> nat \<Rightarrow> byte list \<Rightarrow> byte list" where
  "saltChain P 0 buf = []"
| "saltChain P (Suc n) buf = (let h = Sum256 P buf in h ! 0 # saltChain P n h)"

text \<open>\<open>None\<close> is the nil slice the source returns for a size out of range.\<close>

definition deriveSaltLR :: "prims \<Rightarrow> byte list \<Rightarrow> int \<Rightarrow> byte list option" where
  "deriveSaltLR P seed sz =
     (if sz \<le> 0 \<or> 1024 < sz then None else Some (saltChain P (nat sz) seed))"

definition makeCheckpoint :: "prims \<Rightarrow> int \<Rightarrow> int \<Rightarrow> byte list \<Rightarrow> TrajectoryCheckpoint" where
  "makeCheckpoint P stg iteration data =
     (let sum = Sum256 P data
      in \<lparr>cp_Stage = stg, cp_Iteration = iteration, cp_Hash = base64 P sum, cp_Size = 0\<rparr>)"

section \<open>The salt hierarchy (salthierarchy.go)\<close>

text \<open>\<^verbatim>\<open>binary.BigEndian.PutUint64\<close>.\<close>

definition BigEndian_PutUint64 :: "64 word \<Rightarrow> byte list" where
  "BigEndian_PutUint64 v = map (\<lambda>k. ucast (drop_bit (8 * (7 - k)) v)) [0..<8]"

text \<open>The loop over the stages, with the stage salts made so far.\<close>

fun stageSaltLoop :: "prims \<Rightarrow> byte list \<Rightarrow> int \<Rightarrow> nat \<Rightarrow> nat \<Rightarrow> byte list list \<Rightarrow> error + byte list list" where
  "stageSaltLoop P master stageSaltSize 0 i acc = Inr acc"
| "stageSaltLoop P master stageSaltSize (Suc n) i acc =
     (let seed = master @ [of_nat i]
      in case deriveSaltLR P seed stageSaltSize of
           None \<Rightarrow> Inl (StageSaltGenerationFailed i)
         | Some salt \<Rightarrow> stageSaltLoop P master stageSaltSize n (Suc i) (acc @ [salt]))"

definition GenerateSaltHierarchy :: "prims \<Rightarrow> runtime \<Rightarrow> int \<Rightarrow> int \<Rightarrow> error + HierarchicalSalt" where
  "GenerateSaltHierarchy P R numStages hashSize_arg =
     (if numStages \<le> 0 \<or> 10 < numStages then Inl InvalidNumberOfStages
      else let masterSize0 = 32 + go_div (hashSize_arg - 256) 256 * 16;
               masterSize = (if 80 < masterSize0 then 80 else masterSize0)
      in if masterSize < 0 then Inl Panic
      else case randRead R (nat masterSize) of
             None \<Rightarrow> Inl MasterSaltGenerationFailed
           | Some rnd \<Rightarrow>
      let master = fit (nat masterSize) rnd;
          stageSaltSize0 = 16 + go_div (hashSize_arg - 256) 256 * 8;
          stageSaltSize = (if 48 < stageSaltSize0 then 48 else stageSaltSize0)
      in case stageSaltLoop P master stageSaltSize (nat numStages) 0 [] of
           Inl e \<Rightarrow> Inl e
         | Inr stageSalts \<Rightarrow>
      let hr = go_div (nowUnix R) 3600;
          tb = BigEndian_PutUint64 (word_of_int hr);
          timestampSize0 = 12 + go_div (hashSize_arg - 256) 256 * 4;
          timestampSize = (if 28 < timestampSize0 then 28 else timestampSize0)
      in case deriveSaltLR P tb timestampSize of
           None \<Rightarrow> Inl TimestampSaltGenerationFailed
         | Some ts \<Rightarrow>
      let metaSeed = master @ ts @ concat stageSalts;
          metaSize0 = 24 + go_div (hashSize_arg - 256) 256 * 8;
          metaSize = (if 56 < metaSize0 then 56 else metaSize0)
      in case deriveSaltLR P metaSeed metaSize of
           None \<Rightarrow> Inl MetaSaltGenerationFailed
         | Some meta \<Rightarrow>
             Inr \<lparr>MasterSalt = master, StageSalts = stageSalts, TimestampSalt = ts,
                  MetaSalt = meta, Salt_HashSize = hashSize_arg\<rparr>)"

section \<open>The finalization mixer\<close>

definition lorenzMix :: "prims \<Rightarrow> byte list \<Rightarrow> byte list \<Rightarrow> error + byte list" where
  "lorenzMix P data salt =
     (if data = [] \<or> salt = [] then Inl EmptyInput
      else let combined = data @ salt;
               h = Sum256 P combined
           in Inr (map (\<lambda>i. data ! i XOR h ! (i mod length h)) [0..<length data]))"

definition hyperchaosMix :: "prims \<Rightarrow> byte list \<Rightarrow> byte list \<Rightarrow> error + byte list" where
  "hyperchaosMix P data salt =
     (if data = [] \<or> salt = [] then Inl EmptyInput
      else let key = Sum256 P salt
           in Inr (map (\<lambda>i.
                let val0 = data ! i;
                    val1 = val0 XOR key ! ((i * 7) mod length key);
                    val2 = val1 XOR key ! ((i * 13) mod length key);
                    val3 = (of_nat ((unat val2 + unat (key ! ((i * 17) mod length key))) mod 256) :: byte)
                in val3) [0..<length data]))"

definition latticeMix :: "prims \<Rightarrow> byte list \<Rightarrow> byte list \<Rightarrow> error + byte list" where
  "latticeMix P data salt =
     (if data = [] \<or> salt = [] then Inl EmptyInput
      else let h = Sum256 P salt
           in Inr (map (\<lambda>i.
                let sum = sum_list (map (\<lambda>j. unat (data ! j) * unat (h ! ((i + j) mod length h)))
                                        [0..<length data]);
                    noise = unat (h ! ((i * 3) mod length h))
                in (of_nat ((sum + noise) mod 256) :: byte)) [0..<length data]))"

text \<open>
  The \<^verbatim>\<open>switch hashSize\<close> that picks the hash function by width. The source writes it
  three times (for the checkpoint, for round 1 and for the final round), each time with the
  same four cases and no default, so the slice stays nil for any other width.
\<close>

definition sizedSum :: "prims \<Rightarrow> HashSize \<Rightarrow> byte list \<Rightarrow> byte list" where
  "sizedSum P hs bs =
     (if hs = Size256 then Sum256 P bs
      else if hs = Size384 then Sum384 P bs
      else if hs = Size512 then Sum512 P bs
      else if hs = Size1024 then (let h1 = Sum512 P bs; h2 = Sum512 P h1 in h1 @ h2)
      else [])"

text \<open>The loop \<^verbatim>\<open>for len(final) < outputSize\<close>, which appends 32 bytes each time.\<close>

function expand :: "prims \<Rightarrow> nat \<Rightarrow> byte list \<Rightarrow> byte list" where
  "expand P outputSize final =
     (if length final < outputSize then expand P outputSize (final @ Sum256 P final) else final)"
  by pat_completeness auto
termination
  by (relation "measure (\<lambda>(P, outputSize, final). outputSize - length final)")
     (auto simp: Sum256_def fit_def)

definition quantumFinalize :: "prims \<Rightarrow> byte list \<Rightarrow> HierarchicalSalt option \<Rightarrow> HashSize \<Rightarrow> error + byte list" where
  "quantumFinalize P data salt hs =
     (case salt of
        None \<Rightarrow> Inl InvalidInput
      | Some s \<Rightarrow>
          if data = [] then Inl InvalidInput
          else let combined = data @ MasterSalt s;
                   r1 = sizedSum P hs combined
          in case lorenzMix P r1 (MetaSalt s) of
               Inl e \<Rightarrow> Inl (LorenzMixFailed e)
             | Inr r2 \<Rightarrow>
          (case hyperchaosMix P r2 (TimestampSalt s) of
               Inl e \<Rightarrow> Inl (HyperchaosMixFailed e)
             | Inr r3 \<Rightarrow>
          (case latticeMix P r3 (MasterSalt s) of
               Inl e \<Rightarrow> Inl (LatticeMixFailed e)
             | Inr r4 \<Rightarrow>
          let outputSize = go_div hs 8;
              final = sizedSum P hs r4
          in if outputSize < int (length final)
               then (if outputSize < 0 then Inl Panic else Inr (take (nat outputSize) final))
             else if int (length final) < outputSize
               then Inr (take (nat outputSize) (expand P (nat outputSize) final))
             else Inr final)))"

section \<open>The hasher (hasher.go)\<close>

text \<open>\<^verbatim>\<open>f := func(v float64) *big.Float { return big.NewFloat(v).SetPrec(128) }\<close>\<close>

definition f :: "rat \<Rightarrow> bigfloat" where
  "f v = bf_SetPrec (NewFloat v) 128"

text \<open>
  A composite literal \<^verbatim>\<open>{f(s), f(r), f(b), f(d), n, id, desc}\<close>; the four numbers are
  \<^verbatim>\<open>float64\<close> constants (\<^verbatim>\<open>8.0 / 3.0\<close> is the exact quotient, rounded once).
\<close>

definition stage :: "rat \<Rightarrow> rat \<Rightarrow> rat \<Rightarrow> rat \<Rightarrow> int \<Rightarrow> int \<Rightarrow> string \<Rightarrow> LorenzStage" where
  "stage s r b d n i desc =
     \<lparr>Sigma = f (float64_lit s), Rho = f (float64_lit r), Beta = f (float64_lit b),
      Dt = f (float64_lit d), Iterations = n, StageID = i, Description = desc\<rparr>"




definition GetHashSize :: "HardenedLorenzHasher \<Rightarrow> int" where
  "GetHashSize h = hashSize h"

definition generateSalt :: "prims \<Rightarrow> runtime \<Rightarrow> HardenedLorenzHasher \<Rightarrow> error + HierarchicalSalt" where
  "generateSalt P R h = GenerateSaltHierarchy P R (int (length (stagesOf h))) (hashSize h)"

text \<open>
  The stage loop of \<^verbatim>\<open>compute\<close>, \<^verbatim>\<open>for idx, st := range stages\<close>, with the running buffer
  and the checkpoints so far.
\<close>

fun stageLoop ::
  "prims \<Rightarrow> HardenedLorenzHasher \<Rightarrow> HierarchicalSalt \<Rightarrow> int \<Rightarrow> nat \<Rightarrow> LorenzStage list
   \<Rightarrow> byte list \<Rightarrow> TrajectoryCheckpoint list
   \<Rightarrow> error + (byte list \<times> TrajectoryCheckpoint list)" where
  "stageLoop P h salt outputSize idx [] buf checkpoints = Inr (buf, checkpoints)"
| "stageLoop P h salt outputSize idx (st # rest) buf checkpoints =
     (if length (StageSalts salt) \<le> idx then Inl InsufficientStageSalts
      else let buf1 = buf @ StageSalts salt ! idx
      in case seedBig P buf1 (MasterSalt salt) of
           Inl e \<Rightarrow> Inl (SeedGenerationFailed e)
         | Inr (x0, y0, z0) \<Rightarrow>
      let iterations = Iterations st;
          discard = 1000 + go_div (hashSize h) 4
      in case TrajectoryToHashBig (Some x0) (Some y0) (Some z0)
                (Some (Sigma st)) (Some (Rho st)) (Some (Beta st)) (Some (Dt st))
                iterations discard outputSize of
           Inl e \<Rightarrow> Inl (TrajectoryComputationFailed e)
         | Inr bytesOut \<Rightarrow>
      let sum = sizedSum P (hashSize h) bytesOut;
          cp = \<lparr>cp_Stage = int idx, cp_Iteration = Iterations st,
                cp_Hash = base64 P sum, cp_Size = hashSize h\<rparr>
      in stageLoop P h salt outputSize (Suc idx) rest bytesOut (checkpoints @ [cp]))"

text \<open>\<^verbatim>\<open>fmt.Sprintf("QHASH-%d", n)\<close>.\<close>

fun decimal :: "nat \<Rightarrow> string" where
  "decimal n = (if n < 10 then [char_of (48 + n)] else decimal (n div 10) @ [char_of (48 + n mod 10)])"

definition sprintf_QHASH :: "int \<Rightarrow> string" where
  "sprintf_QHASH n = ''QHASH-'' @ (if n < 0 then ''-'' else []) @ decimal (nat \<bar>n\<bar>)"

text \<open>
  \<^verbatim>\<open>compute\<close>. The sleep that fills the time up to \<^verbatim>\<open>minComputeTime\<close> changes no value of
  the result; the two clock readings and the allocation come from the runtime.
\<close>

definition compute ::
  "prims \<Rightarrow> runtime \<Rightarrow> HardenedLorenzHasher \<Rightarrow> byte list \<Rightarrow> HierarchicalSalt \<Rightarrow> params
   \<Rightarrow> error + HardenedSaltedHash" where
  "compute P R h data salt ps =
     (let buf = data;
          stgs = stagesOf h;
          outputSize = go_div (hashSize h) 8
      in case stageLoop P h salt outputSize 0 stgs buf [] of
           Inl e \<Rightarrow> Inl e
         | Inr (buf', checkpoints) \<Rightarrow>
      (case quantumFinalize P buf' (Some salt) (hashSize h) of
           Inl e \<Rightarrow> Inl (QuantumFinalizationFailed e)
         | Inr finalHash \<Rightarrow>
             Inr \<lparr>Hash = finalHash, Salt = Some salt, Checkpoints = checkpoints,
                  ComputeTime = sinceAtReturn R,
                  MemoryUsed = int (memAlloc R div 1024),
                  Parameters = ps,
                  Algorithm = sprintf_QHASH (hashSize h),
                  Version = ''2.0'',
                  HashSize = hashSize h\<rparr>))"

definition HashWithHardening ::
  "prims \<Rightarrow> runtime \<Rightarrow> HardenedLorenzHasher \<Rightarrow> byte list \<Rightarrow> error + HardenedSaltedHash" where
  "HashWithHardening P R h data =
     (if data = [] then Inl EmptyDataNotAllowed
      else case generateSalt P R h of
             Inl e \<Rightarrow> Inl (SaltGenerationFailed e)
           | Inr salt \<Rightarrow>
               let ps = deriveAdaptiveParameters P data (MasterSalt salt)
               in compute P R h data salt ps)"

definition Hash_simple :: "prims \<Rightarrow> runtime \<Rightarrow> HardenedLorenzHasher \<Rightarrow> byte list \<Rightarrow> error + byte list" where
  "Hash_simple P R h data =
     (case HashWithHardening P R h data of Inl e \<Rightarrow> Inl e | Inr result \<Rightarrow> Inr (Hash result))"

text \<open>
  The checkpoint loop of \<^verbatim>\<open>VerifyHardenedHash\<close>, \<^verbatim>\<open>for i, cp := range recomputed.Checkpoints\<close>:
  \<open>True\<close> when no digest string differs. It runs after the two lengths were found equal.
\<close>

fun checkpointsAgree :: "nat \<Rightarrow> TrajectoryCheckpoint list \<Rightarrow> TrajectoryCheckpoint list \<Rightarrow> bool" where
  "checkpointsAgree i [] stored = True"
| "checkpointsAgree i (cp # rest) stored =
     (if cp_Hash cp \<noteq> cp_Hash (stored ! i) then False else checkpointsAgree (Suc i) rest stored)"

definition VerifyHardenedHash ::
  "prims \<Rightarrow> runtime \<Rightarrow> HardenedLorenzHasher \<Rightarrow> byte list \<Rightarrow> HardenedSaltedHash option
   \<Rightarrow> error + bool" where
  "VerifyHardenedHash P R h data stored =
     (case stored of
        None \<Rightarrow> Inl InvalidStoredHash
      | Some st \<Rightarrow>
          (case Salt st of
             None \<Rightarrow> Inl InvalidStoredHash
           | Some s \<Rightarrow>
               if HashSize st \<noteq> hashSize h then Inl (HashSizeMismatch (hashSize h) (HashSize st))
               else let ps = deriveAdaptiveParameters P data (MasterSalt s)
                    in case compute P R h data s ps of
                         Inl e \<Rightarrow> Inl (RecomputationFailed e)
                       | Inr recomputed \<Rightarrow>
                           if Hash recomputed \<noteq> Hash st then Inr False
                           else if length (Checkpoints recomputed) \<noteq> length (Checkpoints st)
                             then Inr False
                           else if \<not> checkpointsAgree 0 (Checkpoints recomputed) (Checkpoints st)
                             then Inr False
                           else Inr True))"

definition ExposeStages :: "HardenedLorenzHasher \<Rightarrow> LorenzStage list" where
  "ExposeStages h = stagesOf h"

section \<open>The trajectory engine on an explicit store\<close>

text \<open>
  The functions of trajectory.go take \<^verbatim>\<open>*big.Float\<close> pointers and update their receivers
  in place. To see which floats a call writes, the same functions are given once more over
  a store: \<open>heap\<close> maps the address of a float to its precision and value and \<open>nxt\<close> is the
  first address not yet allocated. A computation is a state transformer on the store. The
  \<^verbatim>\<open>*big.Int\<close> values of the source never alias a float and stay values.
\<close>

type_synonym addr = nat

record store =
  heap :: "addr \<Rightarrow> bigfloat"
  nxt :: addr

type_synonym 'a st = "(store, 'a) state"

text \<open>\<^verbatim>\<open>new(big.Float)\<close> and \<^verbatim>\<open>big.NewFloat(v)\<close> allocate a float and return its address.\<close>

definition new_Float :: "addr st" where
  "new_Float = State (\<lambda>s. (nxt s, s\<lparr>heap := (heap s)(nxt s := bf_new), nxt := Suc (nxt s)\<rparr>))"

definition NewFloat_st :: "rat \<Rightarrow> addr st" where
  "NewFloat_st v = State (\<lambda>s. (nxt s, s\<lparr>heap := (heap s)(nxt s := NewFloat v), nxt := Suc (nxt s)\<rparr>))"

text \<open>Reading and writing the float at an address.\<close>

definition deref :: "addr \<Rightarrow> bigfloat st" where
  "deref a = State (\<lambda>s. (heap s a, s))"

definition assign :: "addr \<Rightarrow> bigfloat \<Rightarrow> unit st" where
  "assign a v = State (\<lambda>s. ((), s\<lparr>heap := (heap s)(a := v)\<rparr>))"

text \<open>
  The methods of \<^verbatim>\<open>big.Float\<close>: each reads its operands, writes its receiver \<open>z\<close> and
  returns \<open>z\<close>.
\<close>

definition op_st :: "(bigfloat \<Rightarrow> bigfloat \<Rightarrow> bigfloat \<Rightarrow> bigfloat) \<Rightarrow> addr \<Rightarrow> addr \<Rightarrow> addr \<Rightarrow> addr st" where
  "op_st g z x y = do {
     vz \<leftarrow> deref z;
     vx \<leftarrow> deref x;
     vy \<leftarrow> deref y;
     _ \<leftarrow> assign z (g vz vx vy);
     State_Monad.return z
   }"

definition Add_st :: "addr \<Rightarrow> addr \<Rightarrow> addr \<Rightarrow> addr st" where
  "Add_st = op_st bf_Add"

definition Sub_st :: "addr \<Rightarrow> addr \<Rightarrow> addr \<Rightarrow> addr st" where
  "Sub_st = op_st bf_Sub"

definition Mul_st :: "addr \<Rightarrow> addr \<Rightarrow> addr \<Rightarrow> addr st" where
  "Mul_st = op_st bf_Mul"

definition Copy_st :: "addr \<Rightarrow> addr \<Rightarrow> addr st" where
  "Copy_st z x = do {
     vz \<leftarrow> deref z;
     vx \<leftarrow> deref x;
     _ \<leftarrow> assign z (bf_Copy vz vx);
     State_Monad.return z
   }"

definition SetPrec_st :: "addr \<Rightarrow> nat \<Rightarrow> addr st" where
  "SetPrec_st z p = do {
     vz \<leftarrow> deref z;
     _ \<leftarrow> assign z (bf_SetPrec vz p);
     State_Monad.return z
   }"

definition SetInt_st :: "addr \<Rightarrow> int \<Rightarrow> addr st" where
  "SetInt_st z n = do {
     vz \<leftarrow> deref z;
     _ \<leftarrow> assign z (bf_SetInt vz n);
     State_Monad.return z
   }"

text \<open>\<^verbatim>\<open>new(big.Float).Copy(a).SetPrec(128)\<close>\<close>

definition copy128 :: "addr \<Rightarrow> addr st" where
  "copy128 a = do {
     c \<leftarrow> new_Float;
     c \<leftarrow> Copy_st c a;
     c \<leftarrow> SetPrec_st c 128;
     State_Monad.return c
   }"

text \<open>The part of \<^verbatim>\<open>discretize\<close> and \<^verbatim>\<open>discretizeWithShift\<close> after the copy \<open>c\<close> is made.\<close>

definition frac_byte_st :: "addr \<Rightarrow> byte st" where
  "frac_byte_st c = do {
     vc \<leftarrow> deref c;
     let intPart = bf_Int vc;
     r \<leftarrow> new_Float;
     t \<leftarrow> new_Float;
     t \<leftarrow> SetInt_st t intPart;
     frac \<leftarrow> Sub_st r c t;
     v0 \<leftarrow> deref frac;
     _ \<leftarrow> (if bf_Sign v0 < 0
            then do { one \<leftarrow> NewFloat_st 1; w \<leftarrow> Add_st frac frac one; State_Monad.return w }
            else State_Monad.return frac);
     k \<leftarrow> NewFloat_st 256;
     _ \<leftarrow> Mul_st frac frac k;
     v2 \<leftarrow> deref frac;
     State_Monad.return (low_byte (bf_Int v2))
   }"

definition discretize_st :: "addr option \<Rightarrow> (error + byte) st" where
  "discretize_st fp =
     (case fp of
        None \<Rightarrow> State_Monad.return (Inl NilBigFloat)
      | Some a \<Rightarrow> do {
          c \<leftarrow> copy128 a;
          b \<leftarrow> frac_byte_st c;
          State_Monad.return (Inr b)
        })"

definition discretizeWithShift_st :: "addr option \<Rightarrow> nat \<Rightarrow> (error + byte) st" where
  "discretizeWithShift_st fp shift =
     (case fp of
        None \<Rightarrow> State_Monad.return (Inl NilBigFloat)
      | Some a \<Rightarrow> do {
          c \<leftarrow> copy128 a;
          sf \<leftarrow> new_Float;
          shiftFactor \<leftarrow> SetInt_st sf (push_bit shift 1);
          _ \<leftarrow> Mul_st c c shiftFactor;
          b \<leftarrow> frac_byte_st c;
          State_Monad.return (Inr b)
        })"

text \<open>
  \<^verbatim>\<open>lorenzStep\<close>: the derivatives go to fresh floats; \<open>x\<close>, \<open>y\<close> and \<open>z\<close> are the only
  floats of the caller that are written.
\<close>

definition lorenzStep_st ::
  "addr \<Rightarrow> addr \<Rightarrow> addr \<Rightarrow> addr \<Rightarrow> addr \<Rightarrow> addr \<Rightarrow> addr \<Rightarrow> error option st" where
  "lorenzStep_st x y z sigma rho beta dt = do {
     r0 \<leftarrow> new_Float;
     r1 \<leftarrow> new_Float;
     t1 \<leftarrow> Sub_st r1 y x;
     dx \<leftarrow> Mul_st r0 sigma t1;
     r2 \<leftarrow> new_Float;
     r3 \<leftarrow> new_Float;
     r4 \<leftarrow> new_Float;
     t4 \<leftarrow> Sub_st r4 rho z;
     t3 \<leftarrow> Mul_st r3 x t4;
     dy \<leftarrow> Sub_st r2 t3 y;
     r5 \<leftarrow> new_Float;
     r6 \<leftarrow> new_Float;
     t6 \<leftarrow> Mul_st r6 x y;
     r7 \<leftarrow> new_Float;
     t7 \<leftarrow> Mul_st r7 beta z;
     dz \<leftarrow> Sub_st r5 t6 t7;
     r8 \<leftarrow> new_Float;
     t8 \<leftarrow> Mul_st r8 dx dt;
     _ \<leftarrow> Add_st x x t8;
     r9 \<leftarrow> new_Float;
     t9 \<leftarrow> Mul_st r9 dy dt;
     _ \<leftarrow> Add_st y y t9;
     r10 \<leftarrow> new_Float;
     t10 \<leftarrow> Mul_st r10 dz dt;
     _ \<leftarrow> Add_st z z t10;
     vx \<leftarrow> deref x;
     vy \<leftarrow> deref y;
     vz \<leftarrow> deref z;
     State_Monad.return
       (if overflowed vx then Some XCoordinateOverflow
        else if overflowed vy then Some YCoordinateOverflow
        else if overflowed vz then Some ZCoordinateOverflow
        else None)
   }"

primrec warmUp_st ::
  "nat \<Rightarrow> nat \<Rightarrow> addr \<Rightarrow> addr \<Rightarrow> addr \<Rightarrow> addr \<Rightarrow> addr \<Rightarrow> addr \<Rightarrow> addr \<Rightarrow> error option st" where
  "warmUp_st 0 i x y z sigma rho beta dt = State_Monad.return None"
| "warmUp_st (Suc n) i x y z sigma rho beta dt = do {
     e \<leftarrow> lorenzStep_st x y z sigma rho beta dt;
     (case e of
        Some err \<Rightarrow> State_Monad.return (Some (WarmUpStepFailed i err))
      | None \<Rightarrow> warmUp_st n (Suc i) x y z sigma rho beta dt)
   }"

definition shifted_st :: "addr \<Rightarrow> nat \<Rightarrow> byte st" where
  "shifted_st a shift = do {
     r \<leftarrow> discretizeWithShift_st (Some a) shift;
     State_Monad.return (case r of Inl e \<Rightarrow> 0 | Inr b \<Rightarrow> b)
   }"

definition shifted3_st :: "bool \<Rightarrow> addr \<Rightarrow> addr \<Rightarrow> addr \<Rightarrow> nat \<Rightarrow> byte list st" where
  "shifted3_st wanted x y z shift =
     (if wanted
      then do {
        b1 \<leftarrow> shifted_st x shift;
        b2 \<leftarrow> shifted_st y shift;
        b3 \<leftarrow> shifted_st z shift;
        State_Monad.return [b1, b2, b3]
      }
      else State_Monad.return [])"

definition extractBytes_st :: "int \<Rightarrow> addr \<Rightarrow> addr \<Rightarrow> addr \<Rightarrow> (error + byte list) st" where
  "extractBytes_st outSize x y z = do {
     q1 \<leftarrow> discretize_st (Some x);
     (case q1 of
        Inl e \<Rightarrow> State_Monad.return (Inl e)
      | Inr b1 \<Rightarrow> do {
          q2 \<leftarrow> discretize_st (Some y);
          (case q2 of
             Inl e \<Rightarrow> State_Monad.return (Inl e)
           | Inr b2 \<Rightarrow> do {
               q3 \<leftarrow> discretize_st (Some z);
               (case q3 of
                  Inl e \<Rightarrow> State_Monad.return (Inl e)
                | Inr b3 \<Rightarrow> do {
                    e8 \<leftarrow> shifted3_st (48 \<le> outSize) x y z 8;
                    e16 \<leftarrow> shifted3_st (64 \<le> outSize) x y z 16;
                    e24 \<leftarrow> shifted3_st (128 \<le> outSize) x y z 24;
                    State_Monad.return (Inr ([b1, b2, b3] @ e8 @ e16 @ e24))
                  })
             })
        })
   }"

primrec streamLoop_st ::
  "nat \<Rightarrow> nat \<Rightarrow> int \<Rightarrow> addr \<Rightarrow> addr \<Rightarrow> addr \<Rightarrow> addr \<Rightarrow> addr \<Rightarrow> addr \<Rightarrow> addr
   \<Rightarrow> byte list \<Rightarrow> (error + byte list) st" where
  "streamLoop_st 0 i outSize x y z sigma rho beta dt stream = State_Monad.return (Inr stream)"
| "streamLoop_st (Suc n) i outSize x y z sigma rho beta dt stream = do {
     e \<leftarrow> lorenzStep_st x y z sigma rho beta dt;
     (case e of
        Some err \<Rightarrow> State_Monad.return (Inl (IterationFailed i err))
      | None \<Rightarrow> do {
          q \<leftarrow> extractBytes_st outSize x y z;
          (case q of
             Inl err \<Rightarrow> State_Monad.return (Inl err)
           | Inr bs \<Rightarrow> streamLoop_st n (Suc i) outSize x y z sigma rho beta dt (stream @ bs))
        })
   }"

text \<open>
  \<^verbatim>\<open>TrajectoryToHashBig\<close> on the store. The four parameters are only read; the seeds are
  copied into the fresh floats \<open>x\<close>, \<open>y\<close>, \<open>z\<close> before the first step.
\<close>

definition TrajectoryToHashBig_st ::
  "addr option \<Rightarrow> addr option \<Rightarrow> addr option
   \<Rightarrow> addr option \<Rightarrow> addr option \<Rightarrow> addr option \<Rightarrow> addr option
   \<Rightarrow> int \<Rightarrow> int \<Rightarrow> int \<Rightarrow> (error + byte list) st" where
  "TrajectoryToHashBig_st x0 y0 z0 sigma rho beta dt iterations discard outSize =
     (case (x0, y0, z0, sigma, rho, beta, dt) of
        (Some ax, Some ay, Some az, Some asigma, Some arho, Some abeta, Some adt) \<Rightarrow>
          if iterations < MinIterations \<or> MaxIterations < iterations
            then State_Monad.return (Inl (IterationsOutOfSafeRange iterations))
          else if outSize \<le> 0 \<or> 128 < outSize
            then State_Monad.return (Inl (InvalidOutputSize outSize))
          else do {
            vsigma \<leftarrow> deref asigma;
            vrho \<leftarrow> deref arho;
            vbeta \<leftarrow> deref abeta;
            vdt \<leftarrow> deref adt;
            (if f64_le (Float64 vsigma) 0 \<or> f64_gt (Float64 vsigma) 100
               then State_Monad.return (Inl SigmaOutOfRange)
             else if f64_le (Float64 vrho) 0 \<or> f64_gt (Float64 vrho) 100
               then State_Monad.return (Inl RhoOutOfRange)
             else if f64_le (Float64 vbeta) 0 \<or> f64_gt (Float64 vbeta) 100
               then State_Monad.return (Inl BetaOutOfRange)
             else if f64_le (Float64 vdt) 0 \<or> f64_gt (Float64 vdt) (float64_lit (1/10))
               then State_Monad.return (Inl DtOutOfRange)
             else do {
               x \<leftarrow> copy128 ax;
               y \<leftarrow> copy128 ay;
               z \<leftarrow> copy128 az;
               w \<leftarrow> warmUp_st (nat discard) 0 x y z asigma arho abeta adt;
               (case w of
                  Some e \<Rightarrow> State_Monad.return (Inl e)
                | None \<Rightarrow> do {
                    q \<leftarrow> streamLoop_st (nat iterations) 0 outSize x y z asigma arho abeta adt [];
                    (case q of
                       Inl e \<Rightarrow> State_Monad.return (Inl e)
                     | Inr stream \<Rightarrow>
                         if stream = [] then State_Monad.return (Inl EmptyStreamGenerated)
                         else State_Monad.return (Inr (xorFold outSize stream)))
                  })
             })
          }
      | _ \<Rightarrow> State_Monad.return (Inl NilParameters))"

text \<open>
  A computation preserves the floats below \<open>n\<close>: started in a store that has allocated at
  least \<open>n\<close> floats, it only allocates and leaves every float below \<open>n\<close> as it was; \<open>R\<close>
  holds for what it returns.
\<close>

definition preserves :: "addr \<Rightarrow> 'a st \<Rightarrow> ('a \<Rightarrow> bool) \<Rightarrow> bool" where
  "preserves n m R =
     (\<forall>s. n \<le> nxt s \<longrightarrow>
        (case run_state m s of
           (a, s') \<Rightarrow> nxt s \<le> nxt s' \<and> (\<forall>b<n. heap s' b = heap s b) \<and> R a))"

section \<open>Example inputs\<close>

text \<open>
  Concrete primitives and a concrete runtime, at which the theorems below are instantiated.
  The example digest of \<open>sha256\<close> has the byte \<open>0x80\<close> at the offsets 0, 8 and 16, so each
  of its three windows reads as \<open>2\<^sup>6\<^sup>3\<close> and \<^verbatim>\<open>seedBig\<close> gives the seed \<open>(0, 0, 0)\<close>, the
  fixed point of the Lorenz system.
\<close>

definition originDigest :: "byte list" where
  "originDigest =
     [0x80, 0, 0, 0, 0, 0, 0, 0, 0x80, 0, 0, 0, 0, 0, 0, 0,
      0x80, 0, 0, 0, 0, 0, 0, 0, 0, 0, 0, 0, 0, 0, 0, 0]"

definition examplePrims :: prims where
  "examplePrims =
     \<lparr>sha256 = (\<lambda>bs. originDigest), sha384 = (\<lambda>bs. replicate 48 1),
      sha512 = (\<lambda>bs. replicate 64 2), base64 = map (\<lambda>b. char_of (unat b))\<rparr>"

definition exampleRuntime :: runtime where
  "exampleRuntime =
     \<lparr>randRead = (\<lambda>n. Some (replicate n 7)), nowUnix = 1700000000,
      sinceBeforeSleep = 5000000, sinceAtReturn = 100000000, memAlloc = 2048000\<rparr>"

text \<open>
  The hasher \<^verbatim>\<open>NewHardenedLorenzHasher(256)\<close> returns, a salt hierarchy for it, the result
  \<^verbatim>\<open>compute\<close> gives for the one-byte input \<open>[1]\<close> with these primitives, and the same
  result with the stage index and the iteration count of its first checkpoint changed.
\<close>

definition hasher256 :: HardenedLorenzHasher where
  "hasher256 =
     \<lparr>stages = [256 \<mapsto>
        [stage 10 28 (8/3) (1/100) 2000 1 ''Classic-256'',
         stage 16 (456/10) 4 (8/1000) 3000 2 ''Energetic-256'']],
      memoryHardness = 512, minComputeTime = 100000000, hashSize = 256\<rparr>"

definition exampleSalt :: HierarchicalSalt where
  "exampleSalt =
     \<lparr>MasterSalt = replicate 32 7, StageSalts = [replicate 16 0x80, replicate 16 0x80],
      TimestampSalt = replicate 12 0x80, MetaSalt = replicate 24 0x80, Salt_HashSize = 256\<rparr>"

definition exampleCheckpoints :: "TrajectoryCheckpoint list" where
  "exampleCheckpoints =
     [\<lparr>cp_Stage = 0, cp_Iteration = 2000, cp_Hash = base64 examplePrims originDigest, cp_Size = 256\<rparr>,
      \<lparr>cp_Stage = 1, cp_Iteration = 3000, cp_Hash = base64 examplePrims originDigest, cp_Size = 256\<rparr>]"

definition exampleResult :: HardenedSaltedHash where
  "exampleResult =
     \<lparr>Hash = originDigest, Salt = Some exampleSalt, Checkpoints = exampleCheckpoints,
      ComputeTime = 100000000, MemoryUsed = 2000, Parameters = Map.empty,
      Algorithm = ''QHASH-256'', Version = ''2.0'', HashSize = 256\<rparr>"

definition tamperedCheckpoints :: "TrajectoryCheckpoint list" where
  "tamperedCheckpoints =
     [\<lparr>cp_Stage = 7, cp_Iteration = 99, cp_Hash = base64 examplePrims originDigest, cp_Size = 256\<rparr>,
      \<lparr>cp_Stage = 1, cp_Iteration = 3000, cp_Hash = base64 examplePrims originDigest, cp_Size = 256\<rparr>]"

definition tamperedResult :: HardenedSaltedHash where
  "tamperedResult = exampleResult\<lparr>Checkpoints := tamperedCheckpoints\<rparr>"

section \<open>Auxiliary definitions\<close>

text \<open>The number of bytes one iteration of the stream loop appends.\<close>

definition bytesPerStep :: "int \<Rightarrow> nat" where
  "bytesPerStep outSize =
     3 + (if 48 \<le> outSize then 3 else 0) + (if 64 \<le> outSize then 3 else 0)
       + (if 128 \<le> outSize then 3 else 0)"

text \<open>
  The output byte of round 3 as the specification's sentence reads literally: the input
  byte XORed with the three key bytes at the strides 7, 13 and 17, and then the key byte at
  stride 17 added modulo 256. It is compared with \<^verbatim>\<open>hyperchaosMix\<close> below.
\<close>

definition hyperchaos_byte_as_specified :: "byte list \<Rightarrow> byte \<Rightarrow> nat \<Rightarrow> byte" where
  "hyperchaos_byte_as_specified key d i =
     of_nat ((unat (d XOR key ! ((i * 7) mod length key) XOR key ! ((i * 13) mod length key)
                      XOR key ! ((i * 17) mod length key))
               + unat (key ! ((i * 17) mod length key))) mod 256)"

section \<open>Rounding\<close>

lemma bitlen_bounds_rat:
  assumes "0 < (x::int)"
  shows "2 powi (bitlen x - 1) \<le> (of_int x :: rat)" "(of_int x :: rat) < 2 powi (bitlen x)"
proof -
  from assms have b: "1 \<le> bitlen x" by (simp add: bitlen_alt_def)
  have "2 ^ nat (bitlen x - 1) \<le> x" "x < 2 ^ nat (bitlen x)"
    using bitlen_bounds [OF assms] by simp_all
  then have "(of_int (2 ^ nat (bitlen x - 1)) :: rat) \<le> of_int x"
    and "(of_int x :: rat) < of_int (2 ^ nat (bitlen x))"
    by (simp_all only: of_int_le_iff of_int_less_iff)
  then show "2 powi (bitlen x - 1) \<le> (of_int x :: rat)" "(of_int x :: rat) < 2 powi (bitlen x)"
    using b by (simp_all add: power_int_def)
qed

text \<open>\<open>rexp q\<close> is the exponent of the leading bit of \<open>q\<close>.\<close>

lemma rexp_bounds:
  assumes "q \<noteq> 0"
  shows "2 powi rexp q \<le> \<bar>q\<bar>" "\<bar>q\<bar> < 2 powi (rexp q + 1)"
proof -
  obtain n d where nd: "quotient_of q = (n, d)" by (cases "quotient_of q")
  then have d: "0 < d" and q: "q = of_int n / of_int d"
    by (simp_all add: quotient_of_denom_pos quotient_of_div)
  from assms q have n: "0 < \<bar>n\<bar>" by auto
  define k where "k = bitlen \<bar>n\<bar> - bitlen d"
  have aq: "\<bar>q\<bar> = of_int \<bar>n\<bar> / of_int d" using d by (simp add: q)
  have dpos: "(0::rat) < of_int d" using d by simp
  have up: "\<bar>q\<bar> < 2 powi (k + 1)"
  proof -
    have "of_int \<bar>n\<bar> < (2::rat) powi bitlen \<bar>n\<bar>" by (rule bitlen_bounds_rat [OF n])
    also have "\<dots> = 2 powi (k + 1) * 2 powi (bitlen d - 1)"
      by (simp add: k_def power_int_add [symmetric])
    also have "\<dots> \<le> 2 powi (k + 1) * of_int d"
      by (rule mult_left_mono [OF bitlen_bounds_rat(1) [OF d]]) simp
    finally show ?thesis using dpos by (simp add: aq pos_divide_less_eq)
  qed
  have lo: "2 powi (k - 1) < \<bar>q\<bar>"
  proof -
    have "2 powi (k - 1) * of_int d < (2::rat) powi (k - 1) * 2 powi bitlen d"
      by (rule mult_strict_left_mono [OF bitlen_bounds_rat(2) [OF d]]) simp
    also have "\<dots> = 2 powi (bitlen \<bar>n\<bar> - 1)"
      by (simp add: k_def power_int_add [symmetric])
    also have "\<dots> \<le> of_int \<bar>n\<bar>" by (rule bitlen_bounds_rat [OF n])
    finally show ?thesis using dpos by (simp add: aq pos_less_divide_eq)
  qed
  have r: "rexp q = (if 2 powi k \<le> \<bar>q\<bar> then k else k - 1)"
    by (simp add: rexp_def nd k_def Let_def)
  show "2 powi rexp q \<le> \<bar>q\<bar>" using lo by (simp add: r)
  show "\<bar>q\<bar> < 2 powi (rexp q + 1)" using up by (simp add: r not_le)
qed

lemma pow2_less_imp: "(2::rat) powi a < 2 powi b \<Longrightarrow> a < b"
proof (rule ccontr)
  assume "2 powi a < (2::rat) powi b" and "\<not> a < b"
  then have "b \<le> a" by simp
  then have "(2::rat) powi b \<le> 2 powi a" by (rule power_int_increasing) simp
  with \<open>2 powi a < (2::rat) powi b\<close> show False by simp
qed

lemma round_half_even_of_int [simp]: "round_half_even (of_int j) = j"
  by (simp add: round_half_even_def)

text \<open>A value with a mantissa of at most \<open>p\<close> bits is not changed by rounding to \<open>p\<close> bits.\<close>

lemma round_to_exact:
  assumes "\<bar>m\<bar> < 2 ^ p"
  shows "round_to p (of_int m * 2 powi k) = of_int m * 2 powi k"
proof (cases "m = 0")
  case True
  then show ?thesis by (simp add: round_to_def)
next
  case False
  define q :: rat where "q = of_int m * 2 powi k"
  have q0: "q \<noteq> 0" using False by (simp add: q_def)
  define s where "s = rexp q + 1 - int p"
  have "2 powi rexp q \<le> \<bar>q\<bar>" by (rule rexp_bounds [OF q0])
  also have "\<bar>q\<bar> = of_int \<bar>m\<bar> * 2 powi k" by (simp add: q_def abs_mult)
  also have "\<dots> < 2 ^ p * 2 powi k"
  proof (rule mult_strict_right_mono)
    have "(of_int \<bar>m\<bar> :: rat) < of_int (2 ^ p)" using assms by (simp only: of_int_less_iff)
    then show "(of_int \<bar>m\<bar> :: rat) < 2 ^ p" by simp
  qed simp
  also have "\<dots> = 2 powi (int p + k)" by (simp add: power_int_add)
  finally have "rexp q < int p + k" by (rule pow2_less_imp)
  then have sk: "s \<le> k" by (simp add: s_def)
  have "q / 2 powi s = of_int m * 2 powi (k - s)"
    by (simp add: q_def power_int_diff)
  also have "\<dots> = of_int (m * 2 ^ nat (k - s))" using sk by (simp add: power_int_def)
  finally have "round_half_even (q / 2 powi s) = m * 2 ^ nat (k - s)"
    by (simp only: round_half_even_of_int)
  then have "of_int (round_half_even (q / 2 powi s)) * 2 powi s = of_int m * 2 powi (k - s) * (2 powi s :: rat)"
    using sk by (simp add: power_int_def)
  also have "\<dots> = q" by (simp add: q_def power_int_diff)
  finally show ?thesis using q0 by (simp add: round_to_def q_def [symmetric] s_def Let_def)
qed

lemma round_to_zero [simp]: "round_to p 0 = 0"
  by (simp add: round_to_def)

lemma round_to_dyadic64:
  assumes "\<bar>m\<bar> < 2 ^ 128"
  shows "round_to 128 (of_int m / 2 ^ 64) = of_int m / 2 ^ 64"
proof -
  have "round_to 128 (of_int m * 2 powi (- 64)) = of_int m * 2 powi (- 64)"
    by (rule round_to_exact [OF assms])
  then show ?thesis by (simp add: power_int_minus field_simps)
qed

section \<open>Digest lengths\<close>

lemma length_fit [simp]: "length (fit n bs) = n"
  by (simp add: fit_def)

lemma length_Sum256 [simp]: "length (Sum256 P bs) = 32"
  by (simp add: Sum256_def)

lemma length_Sum384 [simp]: "length (Sum384 P bs) = 48"
  by (simp add: Sum384_def)

lemma length_Sum512 [simp]: "length (Sum512 P bs) = 64"
  by (simp add: Sum512_def)

section \<open>Seed derivation\<close>

lemma denom_eq: "denom = \<lparr>bprec = 128, bval = 2 ^ 64\<rparr>"
  by code_simp

text \<open>
  The four operations of \<^verbatim>\<open>mk\<close> are exact at precision 128: a window \<open>u < 2\<^sup>6\<^sup>4\<close> gives
  numerators below \<open>2\<^sup>7\<^sup>0\<close> over the denominator \<open>2\<^sup>6\<^sup>4\<close>.
\<close>

lemma mk_value:
  assumes "off + 8 \<le> length h"
  shows "mk h off = Inr \<lparr>bprec = 128,
            bval = of_nat (unat (BigEndian_Uint64 (take 8 (drop off h)))) / 2 ^ 64 * 40 - 20\<rparr>"
proof -
  define u where "u = BigEndian_Uint64 (take 8 (drop off h))"
  define n where "n = uint u"
  have n: "0 \<le> n" "n < 2 ^ 64"
    using uint_lt2p [of u] by (simp_all add: n_def)
  have un: "(of_nat (unat u) :: rat) = of_int n"
    by (simp add: n_def)
  have r1: "round_to 128 (of_int n / 2 ^ 64) = of_int n / 2 ^ 64"
    using n by (intro round_to_dyadic64) simp
  have r2: "round_to 128 (of_int (n * 40) / 2 ^ 64) = of_int (n * 40) / 2 ^ 64"
    using n by (intro round_to_dyadic64) simp
  have r3: "round_to 128 (of_int (n * 40 - 20 * 2 ^ 64) / 2 ^ 64) = of_int (n * 40 - 20 * 2 ^ 64) / 2 ^ 64"
    using n by (intro round_to_dyadic64) simp
  define f0 where "f0 = bf_SetPrec (bf_SetUint64 bf_new u) 128"
  define f1 where "f1 = bf_Quo f0 f0 denom"
  define f2 where "f2 = bf_Mul f1 f1 (NewFloat 40)"
  define f3 where "f3 = bf_Sub f2 f2 (NewFloat 20)"
  have f0: "f0 = \<lparr>bprec = 128, bval = of_int n\<rparr>"
    by (simp add: f0_def bf_SetUint64_def bf_new_def bf_SetPrec_def n_def)
  have f1: "f1 = \<lparr>bprec = 128, bval = of_int n / 2 ^ 64\<rparr>"
    using r1 by (simp add: f1_def f0 denom_eq bf_Quo_def bf_op_def)
  have f2: "f2 = \<lparr>bprec = 128, bval = of_int (n * 40) / 2 ^ 64\<rparr>"
    using r2 by (simp add: f2_def f1 NewFloat_def bf_Mul_def bf_op_def)
  have f3: "f3 = \<lparr>bprec = 128, bval = of_int (n * 40 - 20 * 2 ^ 64) / 2 ^ 64\<rparr>"
    using r3 by (simp add: f3_def f2 NewFloat_def bf_Sub_def bf_op_def diff_divide_distrib)
  have "mk h off = Inr f3"
    using assms by (simp add: mk_def Let_def u_def f0_def f1_def f2_def f3_def)
  also have "f3 = \<lparr>bprec = 128, bval = of_nat (unat u) / 2 ^ 64 * 40 - 20\<rparr>"
    unfolding f3 un by (simp add: diff_divide_distrib)
  finally show ?thesis by (simp add: u_def)
qed

lemma window_range:
  fixes u :: "64 word"
  shows "- 20 \<le> (of_nat (unat u) :: rat) / 2 ^ 64 * 40 - 20"
    and "(of_nat (unat u) :: rat) / 2 ^ 64 * 40 - 20 < 20"
proof -
  define r :: rat where "r = of_nat (unat u)"
  define t :: rat where "t = r / 2 ^ 64"
  have "unat u < 2 ^ 64" using unsigned_less [of u, where 'a = nat] by simp
  then have "r < of_nat (2 ^ 64)" unfolding r_def by (simp only: of_nat_less_iff)
  then have lt: "t < 1" by (simp add: t_def)
  have "0 \<le> r" unfolding r_def by (rule of_nat_0_le_iff)
  then have ge: "0 \<le> t" by (simp add: t_def)
  have s: "(of_nat (unat u) :: rat) / 2 ^ 64 * 40 - 20 = t * 40 - 20" unfolding r_def t_def ..
  show "- 20 \<le> (of_nat (unat u) :: rat) / 2 ^ 64 * 40 - 20" using ge unfolding s by linarith
  show "(of_nat (unat u) :: rat) / 2 ^ 64 * 40 - 20 < 20" using lt unfolding s by linarith
qed

lemma seedBig_value:
  assumes "data \<noteq> []" "salt \<noteq> []"
  shows "seedBig P data salt =
     Inr (\<lparr>bprec = 128, bval = of_nat (unat (BigEndian_Uint64 (take 8 (drop 0 (Sum256 P (data @ salt)))))) / 2 ^ 64 * 40 - 20\<rparr>,
          \<lparr>bprec = 128, bval = of_nat (unat (BigEndian_Uint64 (take 8 (drop 8 (Sum256 P (data @ salt)))))) / 2 ^ 64 * 40 - 20\<rparr>,
          \<lparr>bprec = 128, bval = of_nat (unat (BigEndian_Uint64 (take 8 (drop 16 (Sum256 P (data @ salt)))))) / 2 ^ 64 * 40 - 20\<rparr>)"
  using assms by (simp add: seedBig_def Let_def mk_value del: drop_0)

lemma seedBig_empty: "data = [] \<or> salt = [] \<Longrightarrow> seedBig P data salt = Inl EmptyInputData"
  by (auto simp: seedBig_def)

lemma seed_triple:
  assumes "seedBig P data salt =
     Inr (\<lparr>bprec = 128, bval = a\<rparr>, \<lparr>bprec = 128, bval = b\<rparr>, \<lparr>bprec = 128, bval = c\<rparr>)"
    and "- 20 \<le> a \<and> a < 20" "- 20 \<le> b \<and> b < 20" "- 20 \<le> c \<and> c < 20"
  shows "\<exists>x y z. seedBig P data salt = Inr (x, y, z)
         \<and> bval x = a \<and> bval y = b \<and> bval z = c
         \<and> bprec x = 128 \<and> bprec y = 128 \<and> bprec z = 128
         \<and> - 20 \<le> bval x \<and> bval x < 20
         \<and> - 20 \<le> bval y \<and> bval y < 20
         \<and> - 20 \<le> bval z \<and> bval z < 20"
  using assms by simp

text \<open>
  C7. For a non-empty data buffer and a non-empty master salt, \<^verbatim>\<open>seedBig\<close> returns three
  values of precision 128, each the 8-byte window at offset 0, 8 or 16 of the 256-bit
  digest of \<open>data @ salt\<close>, read as an unsigned big-endian 64-bit integer, divided by
  \<open>2\<^sup>6\<^sup>4\<close>, multiplied by 40, minus 20, and each in the half-open interval \<open>[-20, 20)\<close>;
  if either buffer is empty it fails with an error.
\<close>

theorem seedBig_windows_range:
  "(data \<noteq> [] \<and> salt \<noteq> [] \<longrightarrow>
      (\<exists>x y z. seedBig P data salt = Inr (x, y, z)
         \<and> bval x = of_nat (unat (BigEndian_Uint64 (take 8 (drop 0 (Sum256 P (data @ salt)))))) / 2 ^ 64 * 40 - 20
         \<and> bval y = of_nat (unat (BigEndian_Uint64 (take 8 (drop 8 (Sum256 P (data @ salt)))))) / 2 ^ 64 * 40 - 20
         \<and> bval z = of_nat (unat (BigEndian_Uint64 (take 8 (drop 16 (Sum256 P (data @ salt)))))) / 2 ^ 64 * 40 - 20
         \<and> bprec x = 128 \<and> bprec y = 128 \<and> bprec z = 128
         \<and> - 20 \<le> bval x \<and> bval x < 20
         \<and> - 20 \<le> bval y \<and> bval y < 20
         \<and> - 20 \<le> bval z \<and> bval z < 20))
   \<and> (data = [] \<or> salt = [] \<longrightarrow> seedBig P data salt = Inl EmptyInputData)"
proof (intro conjI impI)
  assume ne: "data \<noteq> [] \<and> salt \<noteq> []"
  then have v: "seedBig P data salt =
     Inr (\<lparr>bprec = 128, bval = of_nat (unat (BigEndian_Uint64 (take 8 (drop 0 (Sum256 P (data @ salt)))))) / 2 ^ 64 * 40 - 20\<rparr>,
          \<lparr>bprec = 128, bval = of_nat (unat (BigEndian_Uint64 (take 8 (drop 8 (Sum256 P (data @ salt)))))) / 2 ^ 64 * 40 - 20\<rparr>,
          \<lparr>bprec = 128, bval = of_nat (unat (BigEndian_Uint64 (take 8 (drop 16 (Sum256 P (data @ salt)))))) / 2 ^ 64 * 40 - 20\<rparr>)"
    by (intro seedBig_value) simp_all
  show "\<exists>x y z. seedBig P data salt = Inr (x, y, z)
         \<and> bval x = of_nat (unat (BigEndian_Uint64 (take 8 (drop 0 (Sum256 P (data @ salt)))))) / 2 ^ 64 * 40 - 20
         \<and> bval y = of_nat (unat (BigEndian_Uint64 (take 8 (drop 8 (Sum256 P (data @ salt)))))) / 2 ^ 64 * 40 - 20
         \<and> bval z = of_nat (unat (BigEndian_Uint64 (take 8 (drop 16 (Sum256 P (data @ salt)))))) / 2 ^ 64 * 40 - 20
         \<and> bprec x = 128 \<and> bprec y = 128 \<and> bprec z = 128
         \<and> - 20 \<le> bval x \<and> bval x < 20
         \<and> - 20 \<le> bval y \<and> bval y < 20
         \<and> - 20 \<le> bval z \<and> bval z < 20"
    by (rule seed_triple [OF v]) (intro conjI window_range)+
next
  assume "data = [] \<or> salt = []"
  then show "seedBig P data salt = Inl EmptyInputData" by (rule seedBig_empty)
qed

section \<open>Rounding is monotone at representable bounds\<close>

lemma round_half_even_ge: "of_int n \<le> t \<Longrightarrow> n \<le> round_half_even t"
proof -
  assume "of_int n \<le> t"
  then have "n \<le> \<lfloor>t\<rfloor>" by (simp add: le_floor_iff)
  then show ?thesis by (simp add: round_half_even_def Let_def)
qed

lemma round_half_even_le: "t \<le> of_int n \<Longrightarrow> round_half_even t \<le> n"
proof -
  assume t: "t \<le> of_int n"
  then have fl: "\<lfloor>t\<rfloor> \<le> n" by (simp add: floor_le_iff)
  have "round_half_even t = \<lfloor>t\<rfloor> \<or> (round_half_even t = \<lfloor>t\<rfloor> + 1 \<and> of_int \<lfloor>t\<rfloor> < t)"
    by (auto simp: round_half_even_def Let_def)
  then show ?thesis
  proof
    assume "round_half_even t = \<lfloor>t\<rfloor>"
    then show ?thesis using fl by simp
  next
    assume a: "round_half_even t = \<lfloor>t\<rfloor> + 1 \<and> of_int \<lfloor>t\<rfloor> < t"
    with t have "of_int \<lfloor>t\<rfloor> < (of_int n :: rat)" by linarith
    then have "\<lfloor>t\<rfloor> < n" by (simp only: of_int_less_iff)
    then show ?thesis using a by simp
  qed
qed

lemma pow2_le_imp: "(2::rat) powi a \<le> 2 powi b \<Longrightarrow> a \<le> b"
proof (rule ccontr)
  assume "2 powi a \<le> (2::rat) powi b" and "\<not> a \<le> b"
  then have "b < a" by simp
  then have "(2::rat) powi b < 2 powi a" by (rule power_int_strict_increasing) simp
  with \<open>2 powi a \<le> (2::rat) powi b\<close> show False by simp
qed

lemma round_to_le:
  assumes q: "0 < q" and le: "q \<le> of_int m * 2 powi k" and m: "\<bar>m\<bar> < 2 ^ p"
  shows "round_to p q \<le> of_int m * 2 powi k"
proof -
  define s where "s = rexp q + 1 - int p"
  have q0: "q \<noteq> 0" using q by simp
  have mpos: "0 < m"
  proof (rule ccontr)
    assume "\<not> 0 < m"
    then have "(of_int m :: rat) * 2 powi k \<le> 0" by (simp add: mult_le_0_iff)
    with q le show False by simp
  qed
  have "2 powi rexp q \<le> \<bar>q\<bar>" by (rule rexp_bounds [OF q0])
  also have "\<dots> \<le> of_int m * 2 powi k" using q le by simp
  also have "\<dots> < 2 ^ p * 2 powi k"
  proof (rule mult_strict_right_mono)
    have "(of_int m :: rat) < of_int (2 ^ p)" using m mpos by (simp only: of_int_less_iff)
    then show "(of_int m :: rat) < 2 ^ p" by simp
  qed simp
  also have "\<dots> = 2 powi (int p + k)" by (simp add: power_int_add)
  finally have "rexp q < int p + k" by (rule pow2_less_imp)
  then have sk: "s \<le> k" by (simp add: s_def)
  have c: "of_int m * 2 powi k = (of_int (m * 2 ^ nat (k - s)) :: rat) * 2 powi s"
  proof -
    have "(2::rat) powi k = 2 powi (k - s) * 2 powi s" by (simp add: power_int_add [symmetric])
    also have "(2::rat) powi (k - s) = 2 ^ nat (k - s)" using sk by (simp add: power_int_def)
    finally show ?thesis by simp
  qed
  have "q / 2 powi s \<le> of_int (m * 2 ^ nat (k - s))"
    using le unfolding c by (simp add: pos_divide_le_eq)
  then have "round_half_even (q / 2 powi s) \<le> m * 2 ^ nat (k - s)"
    by (rule round_half_even_le)
  then have "(of_int (round_half_even (q / 2 powi s)) :: rat) \<le> of_int (m * 2 ^ nat (k - s))"
    by (simp only: of_int_le_iff)
  then have "of_int (round_half_even (q / 2 powi s)) * 2 powi s \<le> (of_int (m * 2 ^ nat (k - s)) :: rat) * 2 powi s"
    by (rule mult_right_mono) simp
  then show ?thesis using q0 unfolding c by (simp add: round_to_def s_def Let_def)
qed

lemma round_to_ge:
  assumes c: "0 < of_int m * (2::rat) powi k" and le: "of_int m * 2 powi k \<le> q" and m: "\<bar>m\<bar> < 2 ^ p"
    and p: "0 < p"
  shows "of_int m * 2 powi k \<le> round_to p q"
proof -
  define s where "s = rexp q + 1 - int p"
  have q: "0 < q" using c le by simp
  have q0: "q \<noteq> 0" using q by simp
  have mpos: "0 < m"
  proof (rule ccontr)
    assume "\<not> 0 < m"
    then have "(of_int m :: rat) * 2 powi k \<le> 0" by (simp add: mult_le_0_iff)
    with c show False by simp
  qed
  have r: "round_to p q = of_int (round_half_even (q / 2 powi s)) * 2 powi s"
    using q0 by (simp add: round_to_def s_def Let_def)
  show ?thesis
  proof (cases "s \<le> k")
    case True
    have cc: "of_int m * 2 powi k = (of_int (m * 2 ^ nat (k - s)) :: rat) * 2 powi s"
    proof -
      have "(2::rat) powi k = 2 powi (k - s) * 2 powi s" by (simp add: power_int_add [symmetric])
      also have "(2::rat) powi (k - s) = 2 ^ nat (k - s)" using True by (simp add: power_int_def)
      finally show ?thesis by simp
    qed
    have "of_int (m * 2 ^ nat (k - s)) \<le> q / 2 powi s"
      using le unfolding cc by (simp add: pos_le_divide_eq)
    then have "m * 2 ^ nat (k - s) \<le> round_half_even (q / 2 powi s)"
      by (rule round_half_even_ge)
    then have "(of_int (m * 2 ^ nat (k - s)) :: rat) \<le> of_int (round_half_even (q / 2 powi s))"
      by (simp only: of_int_le_iff)
    then have "(of_int (m * 2 ^ nat (k - s)) :: rat) * 2 powi s \<le> of_int (round_half_even (q / 2 powi s)) * 2 powi s"
      by (rule mult_right_mono) simp
    then show ?thesis unfolding cc r .
  next
    case False
    then have ks: "k + 1 \<le> s" by simp
    have "of_int m * 2 powi k < (2::rat) ^ p * 2 powi k"
    proof (rule mult_strict_right_mono)
      have "(of_int m :: rat) < of_int (2 ^ p)" using m mpos by (simp only: of_int_less_iff)
      then show "(of_int m :: rat) < 2 ^ p" by simp
    qed simp
    also have "\<dots> = 2 powi (int p + k)" by (simp add: power_int_add)
    also have "\<dots> \<le> 2 powi (int p - 1 + s)"
      by (rule power_int_increasing) (use ks in simp_all)
    finally have c_lt: "of_int m * 2 powi k < (2::rat) powi (int p - 1 + s)" .
    have e: "int p - 1 + s = rexp q" by (simp add: s_def)
    have "(2::rat) powi (int p - 1) * 2 powi s \<le> q"
      using rexp_bounds(1) [OF q0] q by (simp add: power_int_add [symmetric] e)
    then have "(2::rat) powi (int p - 1) \<le> q / 2 powi s" by (simp add: pos_le_divide_eq)
    moreover have pp: "(2::rat) powi (int p - 1) = of_int (2 ^ (p - 1))"
      using p by (simp add: power_int_def nat_diff_distrib')
    ultimately have "2 ^ (p - 1) \<le> round_half_even (q / 2 powi s)"
      by (intro round_half_even_ge) simp
    then have "(of_int (2 ^ (p - 1)) :: rat) \<le> of_int (round_half_even (q / 2 powi s))"
      by (simp only: of_int_le_iff)
    then have "(of_int (2 ^ (p - 1)) :: rat) * 2 powi s \<le> round_to p q"
      unfolding r by (rule mult_right_mono) simp
    moreover have "(of_int (2 ^ (p - 1)) :: rat) * 2 powi s = 2 powi (int p - 1 + s)"
      unfolding pp [symmetric] by (simp add: power_int_add)
    ultimately show ?thesis using c_lt by simp
  qed
qed


lemma rexp_upper: "0 < q \<Longrightarrow> q \<le> 2 powi b \<Longrightarrow> rexp q \<le> b"
proof -
  assume q: "0 < q" and b: "q \<le> 2 powi b"
  have "2 powi rexp q \<le> \<bar>q\<bar>" by (rule rexp_bounds) (use q in simp)
  with q b have "(2::rat) powi rexp q \<le> 2 powi b" by simp
  then show ?thesis by (rule pow2_le_imp)
qed

lemma rexp_lower: "0 < q \<Longrightarrow> 2 powi a \<le> q \<Longrightarrow> a \<le> rexp q"
proof -
  assume q: "0 < q" and a: "2 powi a \<le> q"
  have "\<bar>q\<bar> < 2 powi (rexp q + 1)" by (rule rexp_bounds) (use q in simp)
  with q a have "(2::rat) powi a < 2 powi (rexp q + 1)" by simp
  then have "a < rexp q + 1" by (rule pow2_less_imp)
  then show ?thesis by simp
qed

lemma round_to_pow2_bounds:
  assumes "2 powi a \<le> q" "q \<le> 2 powi b" "0 < p"
  shows "2 powi a \<le> round_to p q" "round_to p q \<le> 2 powi b"
proof -
  have q: "0 < q" using assms(1) by (rule less_le_trans [rotated]) simp
  have "of_int 1 * 2 powi a \<le> round_to p q"
    by (rule round_to_ge) (use assms in simp_all)
  then show "2 powi a \<le> round_to p q" by simp
  have "round_to p q \<le> of_int 1 * 2 powi b"
    by (rule round_to_le [OF q]) (use assms in simp_all)
  then show "round_to p q \<le> 2 powi b" by simp
qed

text \<open>In the range of the normal numbers \<^verbatim>\<open>Float64\<close> is rounding to 53 bits.\<close>

lemma Float64_normal:
  assumes lo: "2 powi (- 1022) \<le> bval x" and hi: "bval x \<le> 2 powi 1023"
  shows "Float64 x = F64 (round_to 53 (bval x))"
proof -
  define q where "q = bval x"
  have q: "0 < q" using lo unfolding q_def by (rule less_le_trans [rotated]) simp
  have e: "\<not> rexp q < - 1022" using rexp_lower [OF q] lo by (simp add: q_def not_less)
  have r: "2 powi (- 1022) \<le> round_to 53 q" "round_to 53 q \<le> 2 powi 1023"
    using round_to_pow2_bounds [of "- 1022" q 1023 53] lo hi by (simp_all add: q_def)
  have rpos: "0 < round_to 53 q" using r(1) by (rule less_le_trans [rotated]) simp
  have "rexp (round_to 53 q) \<le> 1023" by (rule rexp_upper [OF rpos r(2)])
  then show ?thesis
    using q e by (simp add: Float64_def Let_def q_def [symmetric])
qed

lemma bval_f [simp]: "bval (f v) = v"
  by (simp add: f_def bf_SetPrec_def NewFloat_def)

lemma round_to_int_bounds:
  assumes "of_int a \<le> q" "q \<le> of_int b" "0 < a" "\<bar>a\<bar> < 2 ^ p" "\<bar>b\<bar> < 2 ^ p" "0 < p"
  shows "of_int a \<le> round_to p q" "round_to p q \<le> of_int b"
proof -
  have q: "0 < q" using assms(1,3) by (simp add: less_le_trans [of 0 "of_int a" q])
  have "of_int a * 2 powi 0 \<le> round_to p q"
    by (rule round_to_ge) (use assms in simp_all)
  then show "of_int a \<le> round_to p q" by simp
  have "round_to p q \<le> of_int b * 2 powi 0"
    by (rule round_to_le [OF q]) (use assms in simp_all)
  then show "round_to p q \<le> of_int b" by simp
qed

lemma pow2_small: "(2::rat) powi (- 1022) \<le> 2 powi (- 8)" "(2::rat) powi (- 4) \<le> 2 powi 1023"
  "(2::rat) powi (- 1022) \<le> 1" "(100::rat) \<le> 2 powi 1023"
proof -
  show "(2::rat) powi (- 1022) \<le> 2 powi (- 8)" by (rule power_int_increasing) simp_all
  show "(2::rat) powi (- 4) \<le> 2 powi 1023" by (rule power_int_increasing) simp_all
  have "(2::rat) powi (- 1022) \<le> 2 powi 0" by (rule power_int_increasing) simp_all
  then show "(2::rat) powi (- 1022) \<le> 1" by simp
  have "(100::rat) \<le> 2 powi 7" by simp
  also have "\<dots> \<le> 2 powi 1023" by (rule power_int_increasing) simp_all
  finally show "(100::rat) \<le> 2 powi 1023" .
qed

text \<open>A constant between 1 and 100 passes the checks on sigma, rho and beta.\<close>

lemma coefficient_in_range:
  assumes "1 \<le> s" "s \<le> 100"
  shows "\<not> (f64_le (Float64 (f (float64_lit s))) 0 \<or> f64_gt (Float64 (f (float64_lit s))) 100)"
proof -
  define v where "v = round_to 53 s"
  have v: "1 \<le> v" "v \<le> 100"
    using round_to_int_bounds [of 1 s 100 53] assms by (simp_all add: v_def)
  have w: "1 \<le> round_to 53 v" "round_to 53 v \<le> 100"
    using round_to_int_bounds [of 1 v 100 53] v by simp_all
  have "Float64 (f v) = F64 (round_to 53 (bval (f v)))"
  proof (rule Float64_normal)
    show "2 powi (- 1022) \<le> bval (f v)" using pow2_small(3) v(1) by simp
    show "bval (f v) \<le> 2 powi 1023" using pow2_small(4) v(2) by simp
  qed
  then show ?thesis using w by (simp add: float64_lit_def v_def [symmetric])
qed

text \<open>A step between \<open>2\<^sup>-\<^sup>8\<close> and \<open>2\<^sup>-\<^sup>4\<close> passes the check on dt.\<close>

lemma dt_in_range:
  assumes "2 powi (- 8) \<le> d" "d \<le> 2 powi (- 4)"
  shows "\<not> (f64_le (Float64 (f (float64_lit d))) 0
            \<or> f64_gt (Float64 (f (float64_lit d))) (float64_lit (1/10)))"
proof -
  define v where "v = round_to 53 d"
  have v: "2 powi (- 8) \<le> v" "v \<le> 2 powi (- 4)"
    using round_to_pow2_bounds [of "- 8" d "- 4" 53] assms by (simp_all add: v_def)
  have w: "2 powi (- 8) \<le> round_to 53 v" "round_to 53 v \<le> 2 powi (- 4)"
    using round_to_pow2_bounds [of "- 8" v "- 4" 53] v by simp_all
  have t: "2 powi (- 4) \<le> round_to 53 (1/10)"
    using round_to_pow2_bounds(1) [of "- 4" "1/10" 0 53] by simp
  have "Float64 (f v) = F64 (round_to 53 (bval (f v)))"
  proof (rule Float64_normal)
    show "2 powi (- 1022) \<le> bval (f v)" using pow2_small(1) v(1) by simp
    show "bval (f v) \<le> 2 powi 1023" using pow2_small(2) v(2) by simp
  qed
  then have "Float64 (f v) = F64 (round_to 53 v)" by simp
  moreover have "0 < round_to 53 v" using w(1) by (rule less_le_trans [rotated]) simp
  moreover have "round_to 53 v \<le> round_to 53 (1/10)" using w(2) t by (rule order_trans)
  ultimately show ?thesis by (simp add: float64_lit_def v_def [symmetric] not_less)
qed

section \<open>The example primitives\<close>

lemma fit_originDigest: "fit 32 originDigest = originDigest"
  by code_simp

lemma Sum256_example [simp]: "Sum256 examplePrims bs = originDigest"
  by (simp add: Sum256_def examplePrims_def fit_originDigest)

lemma origin_windows:
  "BigEndian_Uint64 (take 8 (drop 0 originDigest)) = 2 ^ 63"
  "BigEndian_Uint64 (take 8 (drop 8 originDigest)) = 2 ^ 63"
  "BigEndian_Uint64 (take 8 (drop 16 originDigest)) = 2 ^ 63"
  by code_simp+

lemma origin_seed: "(of_nat (unat ((2::64 word) ^ 63)) :: rat) / 2 ^ 64 * 40 - 20 = 0"
  by simp

theorem seedBig_windows_range_witness:
  "([1::byte] \<noteq> [] \<and> [2::byte] \<noteq> [])
   \<and> seedBig examplePrims [1] [2] =
       Inr (\<lparr>bprec = 128, bval = 0\<rparr>, \<lparr>bprec = 128, bval = 0\<rparr>, \<lparr>bprec = 128, bval = 0\<rparr>)
   \<and> (- 20 \<le> (0::rat) \<and> (0::rat) < 20)
   \<and> ([] = ([]::byte list) \<or> [2::byte] = [])
   \<and> seedBig examplePrims [] [2] = Inl EmptyInputData"
proof -
  from seedBig_windows_range [of "[1]" "[2]" examplePrims]
  obtain x y z where s: "seedBig examplePrims [1] [2] = Inr (x, y, z)"
    and v: "bval x = 0" "bval y = 0" "bval z = 0"
    and p: "bprec x = 128" "bprec y = 128" "bprec z = 128"
    unfolding Sum256_example origin_windows origin_seed by blast
  have "x = \<lparr>bprec = 128, bval = 0\<rparr>" "y = \<lparr>bprec = 128, bval = 0\<rparr>" "z = \<lparr>bprec = 128, bval = 0\<rparr>"
    using v p by simp_all
  moreover have "seedBig examplePrims [] [2] = Inl EmptyInputData"
    using seedBig_windows_range [of "[]" "[2]" examplePrims] by simp
  ultimately show ?thesis using s by simp
qed

section \<open>The XOR fold\<close>

lemma length_foldRound1 [simp]: "length (foldRound1 n stream) = n"
  by (simp add: foldRound1_def)

lemma length_foldRound [simp]: "length (foldRound a b stream hash) = length hash"
  by (simp add: foldRound_def)

lemma nth_foldRound1:
  "i < n \<Longrightarrow> foldRound1 n stream ! i =
     stream ! (i mod length stream) XOR stream ! ((i * 7) mod length stream)"
  by (simp add: foldRound1_def)

lemma nth_foldRound:
  "i < length hash \<Longrightarrow> foldRound a b stream hash ! i =
     hash ! i XOR stream ! ((i * a) mod length stream) XOR stream ! ((i * b) mod length stream)"
  by (simp add: foldRound_def xor.assoc)

lemma length_xorFold [simp]: "length (xorFold outSize stream) = nat outSize"
  by (simp add: xorFold_def Let_def)

lemma nth_xorFold:
  assumes "i < nat outSize"
  shows "xorFold outSize stream ! i =
    (let n = length stream;
         r1 = stream ! (i mod n) XOR stream ! ((i * 7) mod n);
         r2 = r1 XOR stream ! ((i * 11) mod n) XOR stream ! ((i * 13) mod n);
         r3 = (if 48 \<le> outSize then r2 XOR stream ! ((i * 17) mod n) XOR stream ! ((i * 19) mod n) else r2);
         r4 = (if 64 \<le> outSize then r3 XOR stream ! ((i * 23) mod n) XOR stream ! ((i * 29) mod n) else r3);
         r5 = (if 128 \<le> outSize then r4 XOR stream ! ((i * 31) mod n) XOR stream ! ((i * 37) mod n) else r4)
     in r5)"
  using assms by (simp add: xorFold_def Let_def nth_foldRound nth_foldRound1)

lemma TrajectoryToHashBig_Inr:
  assumes "TrajectoryToHashBig x0 y0 z0 sigma rho beta dt iterations discard outSize = Inr hash"
  shows "\<exists>vx vy vz vsigma vrho vbeta vdt stream.
     x0 = Some vx \<and> y0 = Some vy \<and> z0 = Some vz \<and> sigma = Some vsigma \<and> rho = Some vrho
     \<and> beta = Some vbeta \<and> dt = Some vdt
     \<and> entropyStream vx vy vz vsigma vrho vbeta vdt iterations discard outSize = Inr stream
     \<and> stream \<noteq> [] \<and> hash = xorFold outSize stream
     \<and> MinIterations \<le> iterations \<and> iterations \<le> MaxIterations \<and> 0 < outSize \<and> outSize \<le> 128"
  using assms
  by (auto simp: TrajectoryToHashBig_def split: option.splits if_splits sum.splits)

section \<open>The trajectory from the origin\<close>

text \<open>The origin is a fixed point of the step, so its stream is all zero.\<close>

lemma overflowed_zero: "bval v = 0 \<Longrightarrow> \<not> overflowed v"
  by (simp add: overflowed_def Float64_def)

lemma bf_op_zero:
  "f0 (bval x) (bval y) = 0 \<Longrightarrow> bval (bf_op f0 z x y) = 0"
  by (simp add: bf_op_def Let_def)

lemma lorenzStep_origin:
  "lorenzStep \<lparr>bprec = 128, bval = 0\<rparr> \<lparr>bprec = 128, bval = 0\<rparr> \<lparr>bprec = 128, bval = 0\<rparr> sigma rho beta dt =
     Inr (\<lparr>bprec = 128, bval = 0\<rparr>, \<lparr>bprec = 128, bval = 0\<rparr>, \<lparr>bprec = 128, bval = 0\<rparr>)"
  by (simp add: lorenzStep_def bf_Mul_def bf_Sub_def bf_Add_def bf_op_def bf_new_def Let_def
      overflowed_zero)

lemma warmUp_origin:
  "warmUp n i (\<lparr>bprec = 128, bval = 0\<rparr>, \<lparr>bprec = 128, bval = 0\<rparr>, \<lparr>bprec = 128, bval = 0\<rparr>) sigma rho beta dt =
     Inr (\<lparr>bprec = 128, bval = 0\<rparr>, \<lparr>bprec = 128, bval = 0\<rparr>, \<lparr>bprec = 128, bval = 0\<rparr>)"
  by (induction n arbitrary: i) (simp_all add: lorenzStep_origin)

lemma low_byte_zero [simp]: "low_byte 0 = 0"
  by (simp add: low_byte_def)

lemma frac_byte_zero: "bval c = 0 \<Longrightarrow> frac_byte c = 0"
  by (simp add: frac_byte_def bf_Int_def bf_SetInt_def bf_new_def bf_Sub_def bf_Mul_def bf_op_def
      bf_Sign_def Let_def NewFloat_def)

lemma discretize_zero: "discretize (Some \<lparr>bprec = 128, bval = 0\<rparr>) = Inr 0"
  by (simp add: discretize_def bf_Copy_def bf_SetPrec_def frac_byte_zero)

lemma shifted_zero: "shifted \<lparr>bprec = 128, bval = 0\<rparr> k = 0"
  by (simp add: shifted_def discretizeWithShift_def bf_Copy_def bf_SetPrec_def bf_Mul_def
      bf_op_def Let_def frac_byte_zero)

lemma extractBytes_origin:
  "extractBytes outSize \<lparr>bprec = 128, bval = 0\<rparr> \<lparr>bprec = 128, bval = 0\<rparr> \<lparr>bprec = 128, bval = 0\<rparr> =
     Inr (replicate (bytesPerStep outSize) 0)"
  by (simp add: extractBytes_def discretize_zero shifted_zero bytesPerStep_def numeral_3_eq_3)

lemma streamLoop_origin:
  "streamLoop n i outSize (\<lparr>bprec = 128, bval = 0\<rparr>, \<lparr>bprec = 128, bval = 0\<rparr>, \<lparr>bprec = 128, bval = 0\<rparr>)
      sigma rho beta dt stream =
     Inr (stream @ replicate (n * bytesPerStep outSize) 0)"
  by (induction n arbitrary: i stream)
     (simp_all add: lorenzStep_origin extractBytes_origin replicate_add [symmetric] add.commute)

lemma entropyStream_origin:
  assumes "bval x0 = 0" "bval y0 = 0" "bval z0 = 0"
  shows "entropyStream x0 y0 z0 sigma rho beta dt iterations discard outSize =
     Inr (replicate (nat iterations * bytesPerStep outSize) 0)"
  using assms
  by (simp add: entropyStream_def bf_Copy_def bf_SetPrec_def warmUp_origin streamLoop_origin)

lemma xorFold_zeros:
  assumes "0 < n"
  shows "xorFold outSize (replicate n 0) = replicate (nat outSize) 0"
proof (rule nth_equalityI)
  show "length (xorFold outSize (replicate n 0)) = length (replicate (nat outSize) (0::byte))"
    by simp
next
  fix i assume "i < length (xorFold outSize (replicate n 0))"
  then have i: "i < nat outSize" by simp
  have z: "\<And>k. replicate n (0::byte) ! (k mod n) = 0" using assms by simp
  show "xorFold outSize (replicate n 0) ! i = replicate (nat outSize) 0 ! i"
    using i by (simp add: nth_xorFold Let_def z)
qed

lemma TrajectoryToHashBig_origin:
  assumes "bval x0 = 0" "bval y0 = 0" "bval z0 = 0"
    and "MinIterations \<le> iterations" "iterations \<le> MaxIterations"
    and "0 < outSize" "outSize \<le> 128"
    and "\<not> (f64_le (Float64 sigma) 0 \<or> f64_gt (Float64 sigma) 100)"
    and "\<not> (f64_le (Float64 rho) 0 \<or> f64_gt (Float64 rho) 100)"
    and "\<not> (f64_le (Float64 beta) 0 \<or> f64_gt (Float64 beta) 100)"
    and "\<not> (f64_le (Float64 dt) 0 \<or> f64_gt (Float64 dt) (float64_lit (1/10)))"
  shows "TrajectoryToHashBig (Some x0) (Some y0) (Some z0) (Some sigma) (Some rho) (Some beta) (Some dt)
           iterations discard outSize = Inr (replicate (nat outSize) 0)"
proof -
  have it: "0 < nat iterations" using assms(4) by (simp add: MinIterations_def)
  have "0 < bytesPerStep outSize" by (simp add: bytesPerStep_def)
  with it have pos: "0 < nat iterations * bytesPerStep outSize" by simp
  show ?thesis
    using assms pos
    by (simp add: TrajectoryToHashBig_def entropyStream_origin xorFold_zeros)
qed

section \<open>The stage presets pass the validation\<close>

lemma stage_sel [simp]:
  "Sigma (stage s r b d n i desc) = f (float64_lit s)"
  "Rho (stage s r b d n i desc) = f (float64_lit r)"
  "Beta (stage s r b d n i desc) = f (float64_lit b)"
  "Dt (stage s r b d n i desc) = f (float64_lit d)"
  "Iterations (stage s r b d n i desc) = n"
  by (simp_all add: stage_def)







section \<open>Outcomes of the pipeline\<close>

lemma go_div_nonneg: "0 \<le> a \<Longrightarrow> 0 < b \<Longrightarrow> go_div a b = a div b"
  by (cases "a = 0") (simp_all add: go_div_def)

lemma length_sizedSum:
  "hs \<in> {256, 384, 512, 1024} \<Longrightarrow> int (length (sizedSum P hs bs)) = hs div 8"
  by (auto simp: sizedSum_def Size256_def Size384_def Size512_def Size1024_def Let_def)

lemma lorenzMix_ok:
  "data \<noteq> [] \<Longrightarrow> salt \<noteq> [] \<Longrightarrow>
     \<exists>out. lorenzMix P data salt = Inr out \<and> length out = length data"
  by (simp add: lorenzMix_def Let_def)

lemma hyperchaosMix_ok:
  "data \<noteq> [] \<Longrightarrow> salt \<noteq> [] \<Longrightarrow>
     \<exists>out. hyperchaosMix P data salt = Inr out \<and> length out = length data"
  by (simp add: hyperchaosMix_def Let_def)

lemma latticeMix_ok:
  "data \<noteq> [] \<Longrightarrow> salt \<noteq> [] \<Longrightarrow>
     \<exists>out. latticeMix P data salt = Inr out \<and> length out = length data"
  by (simp add: latticeMix_def Let_def)

lemma mix_Inr_length:
  "lorenzMix P data salt = Inr out \<Longrightarrow> length out = length data"
  "hyperchaosMix P data salt = Inr out \<Longrightarrow> length out = length data"
  "latticeMix P data salt = Inr out \<Longrightarrow> length out = length data"
  by (auto simp: lorenzMix_def hyperchaosMix_def latticeMix_def Let_def split: if_splits)


text \<open>With non-empty input and non-empty salts the finalizer cannot fail.\<close>

lemma quantumFinalize_ok:
  assumes hs: "hs \<in> {256, 384, 512, 1024}" and d: "data \<noteq> []"
    and s: "MasterSalt s \<noteq> []" "MetaSalt s \<noteq> []" "TimestampSalt s \<noteq> []"
  shows "\<exists>out. quantumFinalize P data (Some s) hs = Inr out"
proof -
  have g: "go_div hs 8 = hs div 8" using hs by (intro go_div_nonneg) auto
  have l: "\<And>bs. int (length (sizedSum P hs bs)) = hs div 8" using hs by (rule length_sizedSum)
  have pos: "0 < hs div 8" using hs by auto
  define r1 where "r1 = sizedSum P hs (data @ MasterSalt s)"
  have r1: "r1 \<noteq> []" using l [of "data @ MasterSalt s"] pos by (auto simp: r1_def)
  obtain r2 where r2: "lorenzMix P r1 (MetaSalt s) = Inr r2" "length r2 = length r1"
    using lorenzMix_ok [OF r1 s(2)] by blast
  have r2ne: "r2 \<noteq> []" using r1 r2(2) by auto
  obtain r3 where r3: "hyperchaosMix P r2 (TimestampSalt s) = Inr r3" "length r3 = length r2"
    using hyperchaosMix_ok [OF r2ne s(3)] by blast
  have r3ne: "r3 \<noteq> []" using r2ne r3(2) by auto
  obtain r4 where r4: "latticeMix P r3 (MasterSalt s) = Inr r4"
    using latticeMix_ok [OF r3ne s(1)] by blast
  show ?thesis
    using d r2(1) r3(1) r4 l [of r4]
    by (simp add: quantumFinalize_def Let_def g r1_def [symmetric])
qed

lemma length_saltChain [simp]: "length (saltChain P n buf) = n"
  by (induction n arbitrary: buf) (simp_all add: Let_def)

lemma deriveSaltLR_ok:
  "0 < sz \<Longrightarrow> sz \<le> 1024 \<Longrightarrow> deriveSaltLR P seed sz = Some (saltChain P (nat sz) seed)"
  by (simp add: deriveSaltLR_def)

lemma stageSaltLoop_ok:
  assumes sz: "0 < sz" "sz \<le> 1024"
  shows "\<exists>ss. stageSaltLoop P master sz n i acc = Inr ss \<and> length ss = length acc + n"
proof (induction n arbitrary: i acc)
  case 0
  show ?case by simp
next
  case (Suc n)
  define salt where "salt = saltChain P (nat sz) (master @ [of_nat i])"
  from Suc [of "Suc i" "acc @ [salt]"]
  obtain ss where "stageSaltLoop P master sz n (Suc i) (acc @ [salt]) = Inr ss"
    and "length ss = length (acc @ [salt]) + n" by blast
  then show ?case using sz by (simp add: deriveSaltLR_ok Let_def salt_def)
qed












section \<open>The pipeline at the example inputs\<close>


lemma stagesOf_hasher256:
  "stagesOf hasher256 =
        [stage 10 28 (8/3) (1/100) 2000 1 ''Classic-256'',
         stage 16 (456/10) 4 (8/1000) 3000 2 ''Energetic-256'']"
  by (simp add: stagesOf_def hasher256_def)

lemma hashSize_hasher256 [simp]: "hashSize hasher256 = 256"
  by (simp add: hasher256_def)

lemma seedBig_example:
  assumes "data \<noteq> []" "salt \<noteq> []"
  shows "seedBig examplePrims data salt =
     Inr (\<lparr>bprec = 128, bval = 0\<rparr>, \<lparr>bprec = 128, bval = 0\<rparr>, \<lparr>bprec = 128, bval = 0\<rparr>)"
  unfolding seedBig_value [OF assms] Sum256_example origin_windows origin_seed ..

lemma trajectory_example:
  assumes "1 \<le> s" "s \<le> 100" "1 \<le> r" "r \<le> 100" "1 \<le> b" "b \<le> 100"
    and "1 / 256 \<le> d" "d \<le> 1 / 16" "1000 \<le> n" "n \<le> 100000"
  shows "TrajectoryToHashBig (Some \<lparr>bprec = 128, bval = 0\<rparr>) (Some \<lparr>bprec = 128, bval = 0\<rparr>)
           (Some \<lparr>bprec = 128, bval = 0\<rparr>)
           (Some (f (float64_lit s))) (Some (f (float64_lit r))) (Some (f (float64_lit b)))
           (Some (f (float64_lit d))) n discard 32 = Inr (replicate 32 0)"
proof -
  have d: "2 powi (- 8) \<le> d" "d \<le> 2 powi (- 4)"
    using assms(7,8) by (simp_all add: power_int_minus)
  have "TrajectoryToHashBig (Some \<lparr>bprec = 128, bval = 0\<rparr>) (Some \<lparr>bprec = 128, bval = 0\<rparr>)
           (Some \<lparr>bprec = 128, bval = 0\<rparr>)
           (Some (f (float64_lit s))) (Some (f (float64_lit r))) (Some (f (float64_lit b)))
           (Some (f (float64_lit d))) n discard 32 = Inr (replicate (nat 32) 0)"
    by (rule TrajectoryToHashBig_origin [OF _ _ _ _ _ _ _ coefficient_in_range [OF assms(1,2)]
          coefficient_in_range [OF assms(3,4)] coefficient_in_range [OF assms(5,6)]
          dt_in_range [OF d]])
       (use assms(9,10) in \<open>simp_all add: MinIterations_def MaxIterations_def\<close>)
  then show ?thesis by simp
qed

lemma sizedSum_example: "sizedSum examplePrims 256 bs = originDigest"
  by (simp add: sizedSum_def Size256_def)

lemma stageLoop_example:
  assumes "buf \<noteq> []"
  shows "stageLoop examplePrims hasher256 exampleSalt 32 0 (stagesOf hasher256) buf [] =
     Inr (replicate 32 0, exampleCheckpoints)"
  using assms
  by (simp add: stagesOf_hasher256 exampleSalt_def seedBig_example go_div_def Let_def
      trajectory_example sizedSum_example exampleCheckpoints_def)

lemma quantumFinalize_example:
  "quantumFinalize examplePrims (replicate 32 0) (Some exampleSalt) 256 = Inr originDigest"
proof -
  obtain out where out: "quantumFinalize examplePrims (replicate 32 0) (Some exampleSalt) 256 = Inr out"
    using quantumFinalize_ok [of 256 "replicate 32 0" exampleSalt examplePrims]
    by (auto simp: exampleSalt_def)
  then have "out = originDigest"
    by (auto simp: quantumFinalize_def Let_def sizedSum_example go_div_def originDigest_def
        split: sum.splits if_splits)
  with out show ?thesis by simp
qed

lemma sprintf_256: "sprintf_QHASH 256 = ''QHASH-256''"
  by code_simp

lemma compute_example:
  assumes "data \<noteq> []"
  shows "compute examplePrims R hasher256 data exampleSalt ps =
     Inr \<lparr>Hash = originDigest, Salt = Some exampleSalt, Checkpoints = exampleCheckpoints,
          ComputeTime = sinceAtReturn R, MemoryUsed = int (memAlloc R div 1024), Parameters = ps,
          Algorithm = ''QHASH-256'', Version = ''2.0'', HashSize = 256\<rparr>"
  using assms
  by (simp add: compute_def go_div_def Let_def stageLoop_example quantumFinalize_example sprintf_256)

lemma compute_exampleResult:
  "compute examplePrims exampleRuntime hasher256 [1] exampleSalt Map.empty = Inr exampleResult"
  by (simp add: compute_example exampleResult_def exampleRuntime_def)






lemma originDigest_not_zero: "originDigest \<noteq> replicate 32 0"
  by code_simp

lemma compute_example_verify:
  "compute examplePrims exampleRuntime hasher256 [1] exampleSalt
      (deriveAdaptiveParameters examplePrims [1] (MasterSalt exampleSalt)) =
     Inr (exampleResult\<lparr>Parameters := deriveAdaptiveParameters examplePrims [1] (MasterSalt exampleSalt)\<rparr>)"
  by (simp add: compute_example exampleResult_def exampleRuntime_def)

section \<open>Recomputation and the checkpoint loop\<close>

lemma compute_fields:
  assumes "compute P R h data s ps = Inr r"
  shows "compute P R' h data s ps' =
     Inr (r\<lparr>ComputeTime := sinceAtReturn R', MemoryUsed := int (memAlloc R' div 1024),
            Parameters := ps'\<rparr>)"
    and "Salt r = Some s" and "HashSize r = hashSize h" and "Parameters r = ps"
  using assms by (auto simp: compute_def Let_def split: sum.splits prod.splits)

lemma checkpointsAgree_iff:
  "i + length rec \<le> length stored \<Longrightarrow>
     checkpointsAgree i rec stored \<longleftrightarrow>
       (\<forall>k<length rec. cp_Hash (rec ! k) = cp_Hash (stored ! (i + k)))"
proof (induction rec arbitrary: i)
  case Nil
  show ?case by simp
next
  case (Cons cp rest)
  have "Suc i + length rest \<le> length stored" using Cons.prems by simp
  from Cons.IH [OF this] show ?case by (simp add: All_less_Suc2)
qed

lemma checkpointsAgree_same: "checkpointsAgree 0 cps cps"
  by (simp add: checkpointsAgree_iff)

section \<open>Frame rules for the store\<close>

text \<open>
  Rules for \<open>preserves\<close>, one for each way a computation on the store is built. A write is
  allowed only at an address that is not below \<open>n\<close>; every method of \<^verbatim>\<open>big.Float\<close> returns
  its receiver, so the address it returns is again not below \<open>n\<close>.
\<close>

lemma preserves_return: "R a \<Longrightarrow> preserves n (State_Monad.return a) R"
  by (simp add: preserves_def)

lemma preservesD:
  assumes "preserves n m R" and "n \<le> nxt s" and "run_state m s = (a, s')"
  shows "nxt s \<le> nxt s'" and "\<forall>b<n. heap s' b = heap s b" and "R a"
proof -
  from assms(1) have "n \<le> nxt s \<longrightarrow>
      (case run_state m s of
         (a, s') \<Rightarrow> nxt s \<le> nxt s' \<and> (\<forall>b<n. heap s' b = heap s b) \<and> R a)"
    unfolding preserves_def by (rule spec)
  with assms(2,3) show "nxt s \<le> nxt s'" and "\<forall>b<n. heap s' b = heap s b" and "R a"
    by simp_all
qed

lemma preserves_bind:
  assumes "preserves n m Q" and "\<And>a. Q a \<Longrightarrow> preserves n (k a) R"
  shows "preserves n (State_Monad.bind m k) R"
  unfolding preserves_def
proof (intro allI impI)
  fix s :: store assume s: "n \<le> nxt s"
  obtain a s1 where m: "run_state m s = (a, s1)" by (cases "run_state m s")
  note 1 = preservesD [OF assms(1) s m]
  obtain c s2 where k: "run_state (k a) s1 = (c, s2)" by (cases "run_state (k a) s1")
  from s 1(1) have s1: "n \<le> nxt s1" by simp
  note 2 = preservesD [OF assms(2) [OF 1(3)] s1 k]
  show "case run_state (State_Monad.bind m k) s of
          (a, s') \<Rightarrow> nxt s \<le> nxt s' \<and> (\<forall>b<n. heap s' b = heap s b) \<and> R a"
    using m k 1 2 by simp
qed

lemma preserves_new_Float: "preserves n new_Float (\<lambda>a. n \<le> a)"
  by (simp add: preserves_def new_Float_def)

lemma preserves_NewFloat: "preserves n (NewFloat_st v) (\<lambda>a. n \<le> a)"
  by (simp add: preserves_def NewFloat_st_def)

lemma preserves_deref: "preserves n (deref a) (\<lambda>v. True)"
  by (simp add: preserves_def deref_def)

lemma preserves_assign: "n \<le> a \<Longrightarrow> preserves n (assign a v) (\<lambda>u. True)"
  by (simp add: preserves_def assign_def)

lemma preserves_op: "n \<le> z \<Longrightarrow> preserves n (op_st g z x y) (\<lambda>a. n \<le> a)"
  unfolding op_st_def
  by (intro preserves_bind [OF preserves_deref] preserves_bind [OF preserves_assign]
      preserves_return)

lemma preserves_Add: "n \<le> z \<Longrightarrow> preserves n (Add_st z x y) (\<lambda>a. n \<le> a)"
  unfolding Add_st_def by (rule preserves_op)

lemma preserves_Sub: "n \<le> z \<Longrightarrow> preserves n (Sub_st z x y) (\<lambda>a. n \<le> a)"
  unfolding Sub_st_def by (rule preserves_op)

lemma preserves_Mul: "n \<le> z \<Longrightarrow> preserves n (Mul_st z x y) (\<lambda>a. n \<le> a)"
  unfolding Mul_st_def by (rule preserves_op)

lemma preserves_Copy: "n \<le> z \<Longrightarrow> preserves n (Copy_st z x) (\<lambda>a. n \<le> a)"
  unfolding Copy_st_def
  by (intro preserves_bind [OF preserves_deref] preserves_bind [OF preserves_assign]
      preserves_return)

lemma preserves_SetPrec: "n \<le> z \<Longrightarrow> preserves n (SetPrec_st z p) (\<lambda>a. n \<le> a)"
  unfolding SetPrec_st_def
  by (intro preserves_bind [OF preserves_deref] preserves_bind [OF preserves_assign]
      preserves_return)

lemma preserves_SetInt: "n \<le> z \<Longrightarrow> preserves n (SetInt_st z k) (\<lambda>a. n \<le> a)"
  unfolding SetInt_st_def
  by (intro preserves_bind [OF preserves_deref] preserves_bind [OF preserves_assign]
      preserves_return)

lemma preserves_copy128: "preserves n (copy128 a) (\<lambda>c. n \<le> c)"
  unfolding copy128_def
  by (intro preserves_bind [OF preserves_new_Float] preserves_bind [OF preserves_Copy]
      preserves_bind [OF preserves_SetPrec] preserves_return)

lemma preserves_if:
  "(c \<Longrightarrow> preserves n a R) \<Longrightarrow> (\<not> c \<Longrightarrow> preserves n b R) \<Longrightarrow> preserves n (if c then a else b) R"
  by simp

lemma preserves_weaken: "preserves n m Q \<Longrightarrow> (\<And>a. Q a \<Longrightarrow> R a) \<Longrightarrow> preserves n m R"
  by (auto simp: preserves_def split: prod.splits)

lemma preserves_frac_byte: "n \<le> c \<Longrightarrow> preserves n (frac_byte_st c) (\<lambda>b. True)"
  unfolding frac_byte_st_def Let_def
  by (intro preserves_bind [OF preserves_deref] preserves_bind [OF preserves_new_Float]
      preserves_bind [OF preserves_SetInt] preserves_bind [OF preserves_Sub]
      preserves_bind [OF preserves_NewFloat] preserves_bind [OF preserves_Mul]
      preserves_bind [OF preserves_Add]
      preserves_bind [OF preserves_if] preserves_return TrueI)


lemma preserves_case_sum:
  "(\<And>e. q = Inl e \<Longrightarrow> preserves n (a e) R) \<Longrightarrow> (\<And>v. q = Inr v \<Longrightarrow> preserves n (b v) R)
   \<Longrightarrow> preserves n (case q of Inl e \<Rightarrow> a e | Inr v \<Rightarrow> b v) R"
  by (cases q) simp_all

lemma preserves_case_option:
  "(q = None \<Longrightarrow> preserves n a R) \<Longrightarrow> (\<And>v. q = Some v \<Longrightarrow> preserves n (b v) R)
   \<Longrightarrow> preserves n (case q of None \<Rightarrow> a | Some v \<Rightarrow> b v) R"
  by (cases q) simp_all

lemma preserves_discretize: "preserves n (discretize_st fp) (\<lambda>b. True)"
  unfolding discretize_st_def
  by (intro preserves_case_option preserves_bind [OF preserves_copy128]
      preserves_bind [OF preserves_frac_byte] preserves_return TrueI)

lemma preserves_discretizeWithShift: "preserves n (discretizeWithShift_st fp k) (\<lambda>b. True)"
  unfolding discretizeWithShift_st_def
  by (intro preserves_case_option preserves_bind [OF preserves_copy128]
      preserves_bind [OF preserves_new_Float] preserves_bind [OF preserves_SetInt]
      preserves_bind [OF preserves_Mul]
      preserves_bind [OF preserves_frac_byte] preserves_return TrueI)

lemma preserves_lorenzStep:
  assumes "n \<le> x" and "n \<le> y" and "n \<le> z"
  shows "preserves n (lorenzStep_st x y z sigma rho beta dt) (\<lambda>e. True)"
  unfolding lorenzStep_st_def
  by (intro preserves_bind [OF preserves_new_Float] preserves_bind [OF preserves_Sub]
      preserves_bind [OF preserves_Mul] preserves_bind [OF preserves_Add]
      preserves_bind [OF preserves_deref] preserves_return TrueI assms)

lemma preserves_warmUp:
  assumes "n \<le> x" and "n \<le> y" and "n \<le> z"
  shows "preserves n (warmUp_st k i x y z sigma rho beta dt) (\<lambda>e. True)"
proof (induction k arbitrary: i)
  case 0
  show ?case by (simp add: preserves_return)
next
  case (Suc k)
  show ?case
    unfolding warmUp_st.simps
    by (intro preserves_bind [OF preserves_lorenzStep] preserves_case_option
        preserves_return Suc.IH TrueI assms)
qed

lemma preserves_shifted: "preserves n (shifted_st a k) (\<lambda>b. True)"
  unfolding shifted_st_def
  by (intro preserves_bind [OF preserves_discretizeWithShift] preserves_return TrueI)

lemma preserves_shifted3: "preserves n (shifted3_st w x y z k) (\<lambda>b. True)"
  unfolding shifted3_st_def
  by (intro preserves_if preserves_bind [OF preserves_shifted] preserves_return TrueI)

lemma preserves_extractBytes: "preserves n (extractBytes_st outSize x y z) (\<lambda>b. True)"
  unfolding extractBytes_st_def
  by (intro preserves_bind [OF preserves_discretize] preserves_case_sum
      preserves_bind [OF preserves_shifted3] preserves_return TrueI)

lemma preserves_streamLoop:
  assumes "n \<le> x" and "n \<le> y" and "n \<le> z"
  shows "preserves n (streamLoop_st k i outSize x y z sigma rho beta dt stream) (\<lambda>e. True)"
proof (induction k arbitrary: i stream)
  case 0
  show ?case by (simp add: preserves_return)
next
  case (Suc k)
  show ?case
    unfolding streamLoop_st.simps
    by (intro preserves_bind [OF preserves_lorenzStep] preserves_case_option
        preserves_bind [OF preserves_extractBytes] preserves_case_sum
        preserves_return Suc.IH TrueI assms)
qed

lemma preserves_TrajectoryToHashBig:
  "preserves n (TrajectoryToHashBig_st x0 y0 z0 sigma rho beta dt iterations discard outSize)
     (\<lambda>r. True)"
proof -
  have body: "preserves n
       (do {
          x \<leftarrow> copy128 ax;
          y \<leftarrow> copy128 ay;
          z \<leftarrow> copy128 az;
          w \<leftarrow> warmUp_st (nat discard) 0 x y z asigma arho abeta adt;
          (case w of
             Some e \<Rightarrow> State_Monad.return (Inl e)
           | None \<Rightarrow> do {
               q \<leftarrow> streamLoop_st (nat iterations) 0 outSize x y z asigma arho abeta adt [];
               (case q of
                  Inl e \<Rightarrow> State_Monad.return (Inl e)
                | Inr stream \<Rightarrow>
                    if stream = [] then State_Monad.return (Inl EmptyStreamGenerated)
                    else State_Monad.return (Inr (xorFold outSize stream)))
             })
        }) (\<lambda>r. True)" for ax ay az asigma arho abeta adt
    by (intro preserves_bind [OF preserves_copy128] preserves_bind [OF preserves_warmUp]
        preserves_bind [OF preserves_streamLoop]
        preserves_case_option preserves_case_sum preserves_if preserves_return TrueI)
  show ?thesis
    unfolding TrajectoryToHashBig_st_def
    by (auto split: option.splits
        intro!: preserves_return preserves_bind [OF preserves_deref] preserves_if body)
qed

section \<open>The claims\<close>



lemma HashWithHardening_compute:
  assumes "HashWithHardening P R h data = Inr r"
  shows "\<exists>s. generateSalt P R h = Inr s
           \<and> compute P R h data s (deriveAdaptiveParameters P data (MasterSalt s)) = Inr r"
  using assms by (auto simp: HashWithHardening_def Let_def split: if_splits sum.splits)

lemma verify_after_compute:
  assumes "compute P R h data s ps = Inr r"
  shows "VerifyHardenedHash P R' h data (Some r) = Inr True"
    and "\<exists>rec. compute P R' h data s (deriveAdaptiveParameters P data (MasterSalt s)) = Inr rec
           \<and> Hash rec = Hash r \<and> Checkpoints rec = Checkpoints r"
proof -
  note c = compute_fields(1) [OF assms, of R' "deriveAdaptiveParameters P data (MasterSalt s)"]
    compute_fields(2,3) [OF assms]
  show "VerifyHardenedHash P R' h data (Some r) = Inr True"
    by (simp add: VerifyHardenedHash_def c Let_def checkpointsAgree_same)
  show "\<exists>rec. compute P R' h data s (deriveAdaptiveParameters P data (MasterSalt s)) = Inr rec
           \<and> Hash rec = Hash r \<and> Checkpoints rec = Checkpoints r"
    by (simp add: c)
qed

text \<open>
  C2. If \<^verbatim>\<open>compute\<close> produced the result \<open>r\<close> for \<open>data\<close> with the salt hierarchy
  \<open>s\<close>, then verifying \<open>data\<close> against \<open>r\<close>, at any later time, recomputes from \<open>s\<close> a final
  hash and checkpoints identical to those of \<open>r\<close> and returns true. The same holds for a
  result of \<^verbatim>\<open>HashWithHardening\<close>, which is \<^verbatim>\<open>compute\<close> with a freshly generated salt.
\<close>

theorem verify_accepts_computed_result:
  "(compute P R h data s ps = Inr r \<longrightarrow>
      VerifyHardenedHash P R' h data (Some r) = Inr True
      \<and> (\<exists>rec. compute P R' h data s (deriveAdaptiveParameters P data (MasterSalt s)) = Inr rec
             \<and> Hash rec = Hash r \<and> Checkpoints rec = Checkpoints r))
   \<and> (HashWithHardening P R h data = Inr r \<longrightarrow>
      VerifyHardenedHash P R' h data (Some r) = Inr True
      \<and> (\<exists>s' rec. Salt r = Some s'
             \<and> compute P R' h data s' (deriveAdaptiveParameters P data (MasterSalt s')) = Inr rec
             \<and> Hash rec = Hash r \<and> Checkpoints rec = Checkpoints r))"
proof (intro conjI impI)
  assume c: "compute P R h data s ps = Inr r"
  show "VerifyHardenedHash P R' h data (Some r) = Inr True" by (rule verify_after_compute(1) [OF c])
  show "\<exists>rec. compute P R' h data s (deriveAdaptiveParameters P data (MasterSalt s)) = Inr rec
             \<and> Hash rec = Hash r \<and> Checkpoints rec = Checkpoints r"
    by (rule verify_after_compute(2) [OF c])
next
  assume "HashWithHardening P R h data = Inr r"
  then obtain s' where c: "compute P R h data s' (deriveAdaptiveParameters P data (MasterSalt s')) = Inr r"
    using HashWithHardening_compute by blast
  show "VerifyHardenedHash P R' h data (Some r) = Inr True" by (rule verify_after_compute(1) [OF c])
  have "Salt r = Some s'" by (rule compute_fields(2) [OF c])
  with verify_after_compute(2) [OF c, of R']
  show "\<exists>s' rec. Salt r = Some s'
             \<and> compute P R' h data s' (deriveAdaptiveParameters P data (MasterSalt s')) = Inr rec
             \<and> Hash rec = Hash r \<and> Checkpoints rec = Checkpoints r"
    by blast
qed

theorem verify_accepts_computed_result_witness:
  "compute examplePrims exampleRuntime hasher256 [1] exampleSalt Map.empty = Inr exampleResult
   \<and> VerifyHardenedHash examplePrims (exampleRuntime\<lparr>sinceAtReturn := 123456789\<rparr>) hasher256 [1]
        (Some exampleResult) = Inr True
   \<and> map_sum id (\<lambda>rec. (Hash rec, Checkpoints rec))
        (compute examplePrims (exampleRuntime\<lparr>sinceAtReturn := 123456789\<rparr>) hasher256 [1] exampleSalt
           (deriveAdaptiveParameters examplePrims [1] (MasterSalt exampleSalt)))
       = Inr (Hash exampleResult, Checkpoints exampleResult)"
proof -
  have c: "compute examplePrims exampleRuntime hasher256 [1] exampleSalt Map.empty = Inr exampleResult"
    by (rule compute_exampleResult)
  from verify_accepts_computed_result [of examplePrims exampleRuntime hasher256 "[1]" exampleSalt
      Map.empty exampleResult "exampleRuntime\<lparr>sinceAtReturn := 123456789\<rparr>"] c
  have v: "VerifyHardenedHash examplePrims (exampleRuntime\<lparr>sinceAtReturn := 123456789\<rparr>) hasher256 [1]
        (Some exampleResult) = Inr True"
    and "\<exists>rec. compute examplePrims (exampleRuntime\<lparr>sinceAtReturn := 123456789\<rparr>) hasher256 [1] exampleSalt
          (deriveAdaptiveParameters examplePrims [1] (MasterSalt exampleSalt)) = Inr rec
             \<and> Hash rec = Hash exampleResult \<and> Checkpoints rec = Checkpoints exampleResult"
    by blast+
  then obtain rec where "compute examplePrims (exampleRuntime\<lparr>sinceAtReturn := 123456789\<rparr>) hasher256 [1] exampleSalt
          (deriveAdaptiveParameters examplePrims [1] (MasterSalt exampleSalt)) = Inr rec"
    "Hash rec = Hash exampleResult" "Checkpoints rec = Checkpoints exampleResult" by blast
  then show ?thesis using c v by simp
qed

lemma checkpointsAgree_hashes:
  assumes "map cp_Hash a = map cp_Hash b" "i + length rec \<le> length a"
  shows "checkpointsAgree i rec a = checkpointsAgree i rec b"
proof -
  have l: "length a = length b" using assms(1) by (rule map_eq_imp_length_eq)
  have n: "\<And>k. k < length a \<Longrightarrow> cp_Hash (a ! k) = cp_Hash (b ! k)"
  proof -
    fix k assume k: "k < length a"
    then have "map cp_Hash a ! k = map cp_Hash b ! k" using assms(1) by simp
    then show "cp_Hash (a ! k) = cp_Hash (b ! k)" using k l by simp
  qed
  show ?thesis
    using assms(2) l n by (simp add: checkpointsAgree_iff)
qed

lemma VerifyHardenedHash_True:
  assumes "VerifyHardenedHash P R h data stored = Inr True"
  shows "\<exists>st s rec. stored = Some st \<and> Salt st = Some s \<and> HashSize st = hashSize h
       \<and> compute P R h data s (deriveAdaptiveParameters P data (MasterSalt s)) = Inr rec
       \<and> Hash rec = Hash st
       \<and> length (Checkpoints rec) = length (Checkpoints st)
       \<and> (\<forall>i<length (Checkpoints st). cp_Hash (Checkpoints rec ! i) = cp_Hash (Checkpoints st ! i))"
proof -
  from assms obtain st s rec where a: "stored = Some st" "Salt st = Some s" "HashSize st = hashSize h"
    "compute P R h data s (deriveAdaptiveParameters P data (MasterSalt s)) = Inr rec"
    "Hash rec = Hash st" "length (Checkpoints rec) = length (Checkpoints st)"
    "checkpointsAgree 0 (Checkpoints rec) (Checkpoints st)"
    by (auto simp: VerifyHardenedHash_def Let_def split: option.splits if_splits sum.splits)
  from a(6,7) have "\<forall>i<length (Checkpoints st). cp_Hash (Checkpoints rec ! i) = cp_Hash (Checkpoints st ! i)"
    by (simp add: checkpointsAgree_iff)
  with a show ?thesis by blast
qed

lemma VerifyHardenedHash_checkpoint_fields:
  assumes "map cp_Hash cps = map cp_Hash (Checkpoints st)"
  shows "VerifyHardenedHash P R h data (Some (st\<lparr>Checkpoints := cps\<rparr>)) =
         VerifyHardenedHash P R h data (Some st)"
proof -
  have l: "length cps = length (Checkpoints st)" using assms by (rule map_eq_imp_length_eq)
  have "\<And>rec. length rec = length cps \<Longrightarrow>
      checkpointsAgree 0 rec cps = checkpointsAgree 0 rec (Checkpoints st)"
    by (rule checkpointsAgree_hashes [OF assms]) simp
  then show ?thesis
    by (auto simp: VerifyHardenedHash_def Let_def l split: option.splits sum.splits)
qed

text \<open>
  C3 (as amended). \<^verbatim>\<open>VerifyHardenedHash\<close> returns true only if the recomputation from the
  stored salt succeeded, the final hash bytes are identical, the recomputed and the stored
  checkpoint lists have the same length, and at every position the recomputed digest string
  equals the stored one. The stage index, the iteration count and the size of a stored
  checkpoint are not compared: replacing the stored checkpoints by any list with the same
  digest strings in the same order leaves the result of the verification unchanged.
\<close>

theorem VerifyHardenedHash_true_only_if:
  "(VerifyHardenedHash P R h data stored = Inr True \<longrightarrow>
      (\<exists>st s rec. stored = Some st \<and> Salt st = Some s \<and> HashSize st = hashSize h
         \<and> compute P R h data s (deriveAdaptiveParameters P data (MasterSalt s)) = Inr rec
         \<and> Hash rec = Hash st
         \<and> length (Checkpoints rec) = length (Checkpoints st)
         \<and> (\<forall>i<length (Checkpoints st).
               cp_Hash (Checkpoints rec ! i) = cp_Hash (Checkpoints st ! i))))
   \<and> (map cp_Hash cps = map cp_Hash (Checkpoints st') \<longrightarrow>
        VerifyHardenedHash P R h data (Some (st'\<lparr>Checkpoints := cps\<rparr>)) =
        VerifyHardenedHash P R h data (Some st'))"
  using VerifyHardenedHash_True [of P R h data stored]
    VerifyHardenedHash_checkpoint_fields [of cps st' P R h data]
  by blast

lemma verify_exampleResult:
  "VerifyHardenedHash examplePrims exampleRuntime hasher256 [1] (Some exampleResult) = Inr True"
  by (rule verify_after_compute(1) [OF compute_exampleResult])

theorem VerifyHardenedHash_true_only_if_witness:
  "VerifyHardenedHash examplePrims exampleRuntime hasher256 [1] (Some exampleResult) = Inr True
   \<and> map_sum id (\<lambda>rec. (Hash rec, map cp_Hash (Checkpoints rec)))
        (compute examplePrims exampleRuntime hasher256 [1] exampleSalt
           (deriveAdaptiveParameters examplePrims [1] (MasterSalt exampleSalt)))
       = Inr (Hash exampleResult, map cp_Hash (Checkpoints exampleResult))
   \<and> map cp_Hash tamperedCheckpoints = map cp_Hash (Checkpoints exampleResult)
   \<and> VerifyHardenedHash examplePrims exampleRuntime hasher256 [1]
        (Some (exampleResult\<lparr>Checkpoints := tamperedCheckpoints\<rparr>)) =
       VerifyHardenedHash examplePrims exampleRuntime hasher256 [1] (Some exampleResult)"
proof -
  note T = VerifyHardenedHash_true_only_if [of examplePrims exampleRuntime hasher256 "[1]"
      "Some exampleResult" tamperedCheckpoints exampleResult]
  have m: "map cp_Hash tamperedCheckpoints = map cp_Hash (Checkpoints exampleResult)"
    by (simp add: tamperedCheckpoints_def exampleResult_def exampleCheckpoints_def)
  from T m have e: "VerifyHardenedHash examplePrims exampleRuntime hasher256 [1]
        (Some (exampleResult\<lparr>Checkpoints := tamperedCheckpoints\<rparr>)) =
       VerifyHardenedHash examplePrims exampleRuntime hasher256 [1] (Some exampleResult)"
    by blast
  have c: "map_sum id (\<lambda>rec. (Hash rec, map cp_Hash (Checkpoints rec)))
        (compute examplePrims exampleRuntime hasher256 [1] exampleSalt
           (deriveAdaptiveParameters examplePrims [1] (MasterSalt exampleSalt)))
       = Inr (Hash exampleResult, map cp_Hash (Checkpoints exampleResult))"
    by (simp add: compute_example_verify)
  from verify_exampleResult m e c show ?thesis by blast
qed

text \<open>
  The claim as stated fails: the stored result below has the stage index 7 and the
  iteration count 99 in its first checkpoint, the recomputed first checkpoint has the stage
  index 0 and the iteration count 2000, and the verification returns true.
\<close>

theorem VerifyHardenedHash_ignores_stage_and_iteration:
  "VerifyHardenedHash examplePrims exampleRuntime hasher256 [1] (Some tamperedResult) = Inr True
   \<and> map cp_Stage (Checkpoints tamperedResult) = [7, 1]
   \<and> map cp_Iteration (Checkpoints tamperedResult) = [99, 3000]
   \<and> map_sum id (\<lambda>rec. (map cp_Stage (Checkpoints rec), map cp_Iteration (Checkpoints rec)))
        (compute examplePrims exampleRuntime hasher256 [1] exampleSalt
           (deriveAdaptiveParameters examplePrims [1] (MasterSalt exampleSalt)))
       = Inr ([0, 1], [2000, 3000])"
proof -
  have m: "map cp_Hash tamperedCheckpoints = map cp_Hash (Checkpoints exampleResult)"
    by (simp add: tamperedCheckpoints_def exampleResult_def exampleCheckpoints_def)
  have "VerifyHardenedHash examplePrims exampleRuntime hasher256 [1] (Some tamperedResult) = Inr True"
    unfolding tamperedResult_def VerifyHardenedHash_checkpoint_fields [OF m]
    by (rule verify_exampleResult)
  then show ?thesis
    by (simp add: compute_example_verify tamperedResult_def tamperedCheckpoints_def
        exampleResult_def exampleCheckpoints_def)
qed

lemma hyperchaosMix_nth:
  assumes "data \<noteq> []" "salt \<noteq> []"
  shows "\<exists>out. hyperchaosMix P data salt = Inr out \<and> length out = length data
     \<and> (\<forall>i<length data. out ! i =
           (let key = Sum256 P salt;
                x1 = data ! i XOR key ! ((i * 7) mod 32);
                x2 = x1 XOR key ! ((i * 13) mod 32)
            in of_nat ((unat x2 + unat (key ! ((i * 17) mod 32))) mod 256)))"
  using assms by (simp add: hyperchaosMix_def Let_def)

lemma quantumFinalize_rounds:
  assumes "quantumFinalize P d (Some s) hs = Inr final"
  shows "\<exists>r2 r3 r4. lorenzMix P (sizedSum P hs (d @ MasterSalt s)) (MetaSalt s) = Inr r2
           \<and> hyperchaosMix P r2 (TimestampSalt s) = Inr r3
           \<and> latticeMix P r3 (MasterSalt s) = Inr r4"
  using assms by (auto simp: quantumFinalize_def Let_def split: if_splits sum.splits)

text \<open>
  C4 (as amended). In finalization round 3 the key is the 256-bit hash of the timestamp
  salt, and every output byte \<open>i\<close> is the input byte XORed with the key byte at stride 7,
  then XORed with the key byte at stride 13 (indices modulo the key length 32), and then the
  key byte at stride 17 is added modulo 256. Only two key bytes are XORed in; the key byte
  at stride 17 is added, not XORed.
\<close>

theorem hyperchaosMix_bytes:
  "(data \<noteq> [] \<and> salt \<noteq> [] \<longrightarrow>
      (\<exists>out. hyperchaosMix P data salt = Inr out \<and> length out = length data
         \<and> (\<forall>i<length data. out ! i =
               (let key = Sum256 P salt;
                    x1 = data ! i XOR key ! ((i * 7) mod 32);
                    x2 = x1 XOR key ! ((i * 13) mod 32)
                in of_nat ((unat x2 + unat (key ! ((i * 17) mod 32))) mod 256)))))
   \<and> (quantumFinalize P d (Some s) hs = Inr final \<longrightarrow>
      (\<exists>r2 r3 r4. lorenzMix P (sizedSum P hs (d @ MasterSalt s)) (MetaSalt s) = Inr r2
           \<and> hyperchaosMix P r2 (TimestampSalt s) = Inr r3
           \<and> latticeMix P r3 (MasterSalt s) = Inr r4))"
  using hyperchaosMix_nth [of data salt P] quantumFinalize_rounds [of P d s hs final] by blast

lemma hyperchaosMix_example: "hyperchaosMix examplePrims [0] [1] = Inr [0x80]"
  by (simp add: hyperchaosMix_def Let_def originDigest_def)

theorem hyperchaosMix_bytes_witness:
  "[0::byte] \<noteq> [] \<and> [1::byte] \<noteq> []
   \<and> hyperchaosMix examplePrims [0] [1] = Inr [0x80]
   \<and> (0x80::byte) = of_nat ((unat ((0::byte) XOR 0x80 XOR 0x80) + unat (0x80::byte)) mod 256)
   \<and> quantumFinalize examplePrims (replicate 32 0) (Some exampleSalt) 256 = Inr originDigest
   \<and> (\<exists>r2 r3 r4.
         lorenzMix examplePrims (sizedSum examplePrims 256 (replicate 32 0 @ MasterSalt exampleSalt))
           (MetaSalt exampleSalt) = Inr r2
         \<and> hyperchaosMix examplePrims r2 (TimestampSalt exampleSalt) = Inr r3
         \<and> latticeMix examplePrims r3 (MasterSalt exampleSalt) = Inr r4)"
proof -
  note T = hyperchaosMix_bytes [of "[0]" "[1]" examplePrims "replicate 32 0" exampleSalt 256 originDigest]
  from T have "\<exists>out. hyperchaosMix examplePrims [0] [1] = Inr out \<and> length out = length [0::byte]
         \<and> (\<forall>i<length [0::byte]. out ! i =
               (let key = Sum256 examplePrims [1];
                    x1 = [0] ! i XOR key ! ((i * 7) mod 32);
                    x2 = x1 XOR key ! ((i * 13) mod 32)
                in of_nat ((unat x2 + unat (key ! ((i * 17) mod 32))) mod 256)))"
    by simp
  then obtain out where o: "hyperchaosMix examplePrims [0] [1] = Inr out"
    "out ! 0 = of_nat ((unat ((0::byte) XOR originDigest ! 0 XOR originDigest ! 0) + unat (originDigest ! 0)) mod 256)"
    by (auto simp: Let_def)
  have k: "originDigest ! 0 = 0x80" by (simp add: originDigest_def)
  have "out = [0x80]" using o(1) by (simp add: hyperchaosMix_example)
  with o(2) have b: "(0x80::byte) = of_nat ((unat ((0::byte) XOR 0x80 XOR 0x80) + unat (0x80::byte)) mod 256)"
    by (simp add: k)
  from T quantumFinalize_example
  have r: "\<exists>r2 r3 r4.
         lorenzMix examplePrims (sizedSum examplePrims 256 (replicate 32 0 @ MasterSalt exampleSalt))
           (MetaSalt exampleSalt) = Inr r2
         \<and> hyperchaosMix examplePrims r2 (TimestampSalt exampleSalt) = Inr r3
         \<and> latticeMix examplePrims r3 (MasterSalt exampleSalt) = Inr r4"
    by blast
  show ?thesis
    using b r by (simp add: hyperchaosMix_example quantumFinalize_example)
qed

text \<open>
  The claim as stated fails: for the input byte 0 and a key whose first byte is \<open>0x80\<close> the
  code returns \<open>0x80\<close>, and the byte as specified is 0.
\<close>

theorem hyperchaosMix_not_as_specified:
  "hyperchaosMix examplePrims [0] [1] = Inr [0x80]
   \<and> hyperchaos_byte_as_specified (Sum256 examplePrims [1]) ([0] ! 0) 0 = 0
   \<and> map_sum id (\<lambda>out. out ! 0) (hyperchaosMix examplePrims [0] [1])
       \<noteq> Inr (hyperchaos_byte_as_specified (Sum256 examplePrims [1]) ([0] ! 0) 0)"
  by (simp add: hyperchaosMix_example hyperchaos_byte_as_specified_def originDigest_def)

text \<open>
  C5. The final hash and the checkpoints of a computed result depend on the input data
  and the salt hierarchy only. The parameter map is stored in the result as it was given
  and has no influence on anything else: two computations with the same hasher, data and
  salt and arbitrary parameter maps (at arbitrary times) either both fail with the same
  error or both succeed with the same final hash and the same checkpoints.
\<close>

theorem compute_independent_of_parameters:
  "map_sum id (\<lambda>r. (Hash r, Checkpoints r)) (compute P R h data s ps1)
     = map_sum id (\<lambda>r. (Hash r, Checkpoints r)) (compute P R' h data s ps2)
   \<and> (\<forall>r. compute P R h data s ps1 = Inr r \<longrightarrow> Parameters r = ps1)"
proof (intro conjI allI impI)
  show "map_sum id (\<lambda>r. (Hash r, Checkpoints r)) (compute P R h data s ps1)
     = map_sum id (\<lambda>r. (Hash r, Checkpoints r)) (compute P R' h data s ps2)"
    by (simp add: compute_def Let_def split: sum.splits prod.splits)
next
  fix r assume "compute P R h data s ps1 = Inr r"
  then show "Parameters r = ps1" by (rule compute_fields(4))
qed

theorem compute_independent_of_parameters_witness:
  "map_sum id (\<lambda>r. (Hash r, Checkpoints r))
      (compute examplePrims exampleRuntime hasher256 [1] exampleSalt Map.empty)
     = Inr (originDigest, exampleCheckpoints)
   \<and> map_sum id (\<lambda>r. (Hash r, Checkpoints r))
      (compute examplePrims exampleRuntime hasher256 [1] exampleSalt
         [''dt_scale'' \<mapsto> PFloat 5, ''quantum_resistance_level'' \<mapsto> PInt 9])
     = Inr (originDigest, exampleCheckpoints)
   \<and> Parameters exampleResult = Map.empty"
proof -
  have c: "compute examplePrims exampleRuntime hasher256 [1] exampleSalt Map.empty = Inr exampleResult"
    by (rule compute_exampleResult)
  from compute_independent_of_parameters [of examplePrims exampleRuntime hasher256 "[1]" exampleSalt
      Map.empty exampleRuntime "[''dt_scale'' \<mapsto> PFloat 5, ''quantum_resistance_level'' \<mapsto> PInt 9]"]
  have "map_sum id (\<lambda>r. (Hash r, Checkpoints r))
      (compute examplePrims exampleRuntime hasher256 [1] exampleSalt
         [''dt_scale'' \<mapsto> PFloat 5, ''quantum_resistance_level'' \<mapsto> PInt 9])
     = Inr (Hash exampleResult, Checkpoints exampleResult)"
    and "Parameters exampleResult = Map.empty"
    using c by simp_all
  then show ?thesis using c by (simp add: exampleResult_def)
qed

text \<open>
  C6. \<^verbatim>\<open>VerifyHardenedHash\<close> separates structural problems from content mismatches. A nil
  stored result or a nil salt gives the error ``invalid stored hash''; a stored width
  different from the hasher's gives the error ``hash size mismatch''. When the stored
  record is well-formed and the recomputation produced a result, a different final hash, a
  different number of checkpoints or a different digest string at some checkpoint gives
  the value false and no error.
\<close>

theorem VerifyHardenedHash_errors_and_mismatches:
  "(stored = None \<or> (\<exists>st. stored = Some st \<and> Salt st = None)
      \<longrightarrow> VerifyHardenedHash P R h data stored = Inl InvalidStoredHash)
   \<and> (\<forall>st s. stored = Some st \<and> Salt st = Some s \<and> HashSize st \<noteq> hashSize h
      \<longrightarrow> VerifyHardenedHash P R h data stored = Inl (HashSizeMismatch (hashSize h) (HashSize st)))
   \<and> (\<forall>st s rec. stored = Some st \<and> Salt st = Some s \<and> HashSize st = hashSize h
        \<and> compute P R h data s (deriveAdaptiveParameters P data (MasterSalt s)) = Inr rec
        \<and> (Hash rec \<noteq> Hash st
             \<or> length (Checkpoints rec) \<noteq> length (Checkpoints st)
             \<or> (\<exists>i<length (Checkpoints rec).
                   cp_Hash (Checkpoints rec ! i) \<noteq> cp_Hash (Checkpoints st ! i)))
      \<longrightarrow> VerifyHardenedHash P R h data stored = Inr False)"
proof (intro conjI allI impI)
  assume "stored = None \<or> (\<exists>st. stored = Some st \<and> Salt st = None)"
  then show "VerifyHardenedHash P R h data stored = Inl InvalidStoredHash"
    by (auto simp: VerifyHardenedHash_def)
next
  fix st s
  assume "stored = Some st \<and> Salt st = Some s \<and> HashSize st \<noteq> hashSize h"
  then show "VerifyHardenedHash P R h data stored = Inl (HashSizeMismatch (hashSize h) (HashSize st))"
    by (simp add: VerifyHardenedHash_def)
next
  fix st s rec
  assume a: "stored = Some st \<and> Salt st = Some s \<and> HashSize st = hashSize h
        \<and> compute P R h data s (deriveAdaptiveParameters P data (MasterSalt s)) = Inr rec
        \<and> (Hash rec \<noteq> Hash st
             \<or> length (Checkpoints rec) \<noteq> length (Checkpoints st)
             \<or> (\<exists>i<length (Checkpoints rec).
                   cp_Hash (Checkpoints rec ! i) \<noteq> cp_Hash (Checkpoints st ! i)))"
  show "VerifyHardenedHash P R h data stored = Inr False"
  proof (cases "Hash rec = Hash st \<and> length (Checkpoints rec) = length (Checkpoints st)")
    case False
    then show ?thesis using a by (auto simp: VerifyHardenedHash_def Let_def)
  next
    case True
    with a have "\<exists>i<length (Checkpoints rec).
                   cp_Hash (Checkpoints rec ! i) \<noteq> cp_Hash (Checkpoints st ! i)" by blast
    then have "\<not> checkpointsAgree 0 (Checkpoints rec) (Checkpoints st)"
      using True by (simp add: checkpointsAgree_iff)
    then show ?thesis using a True by (simp add: VerifyHardenedHash_def Let_def)
  qed
qed

theorem VerifyHardenedHash_errors_and_mismatches_witness:
  "VerifyHardenedHash examplePrims exampleRuntime hasher256 [1] None = Inl InvalidStoredHash
   \<and> VerifyHardenedHash examplePrims exampleRuntime hasher256 [1]
        (Some (exampleResult\<lparr>Salt := None\<rparr>)) = Inl InvalidStoredHash
   \<and> VerifyHardenedHash examplePrims exampleRuntime hasher256 [1]
        (Some (exampleResult\<lparr>HashSize := 512\<rparr>)) = Inl (HashSizeMismatch 256 512)
   \<and> VerifyHardenedHash examplePrims exampleRuntime hasher256 [1]
        (Some (exampleResult\<lparr>Hash := replicate 32 0\<rparr>)) = Inr False
   \<and> VerifyHardenedHash examplePrims exampleRuntime hasher256 [1]
        (Some (exampleResult\<lparr>Checkpoints := [hd exampleCheckpoints]\<rparr>)) = Inr False
   \<and> VerifyHardenedHash examplePrims exampleRuntime hasher256 [1]
        (Some (exampleResult\<lparr>Checkpoints := map (\<lambda>c. c\<lparr>cp_Hash := ''x''\<rparr>) exampleCheckpoints\<rparr>))
        = Inr False"
proof -
  note T = VerifyHardenedHash_errors_and_mismatches [of _ examplePrims exampleRuntime hasher256 "[1]"]
  have a: "VerifyHardenedHash examplePrims exampleRuntime hasher256 [1] None = Inl InvalidStoredHash"
    using T [of None] by simp
  have b: "VerifyHardenedHash examplePrims exampleRuntime hasher256 [1]
        (Some (exampleResult\<lparr>Salt := None\<rparr>)) = Inl InvalidStoredHash"
    using T [of "Some (exampleResult\<lparr>Salt := None\<rparr>)"] by simp
  have c: "VerifyHardenedHash examplePrims exampleRuntime hasher256 [1]
        (Some (exampleResult\<lparr>HashSize := 512\<rparr>)) = Inl (HashSizeMismatch 256 512)"
    using T [of "Some (exampleResult\<lparr>HashSize := 512\<rparr>)"] by (simp add: exampleResult_def)
  have F: "\<And>st :: HardenedSaltedHash. Salt st = Some exampleSalt \<Longrightarrow> HashSize st = 256 \<Longrightarrow>
      (Hash (exampleResult\<lparr>Parameters := deriveAdaptiveParameters examplePrims [1] (MasterSalt exampleSalt)\<rparr>) \<noteq> Hash st
        \<or> length (Checkpoints (exampleResult\<lparr>Parameters := deriveAdaptiveParameters examplePrims [1] (MasterSalt exampleSalt)\<rparr>))
            \<noteq> length (Checkpoints st)
        \<or> (\<exists>i<length (Checkpoints (exampleResult\<lparr>Parameters := deriveAdaptiveParameters examplePrims [1] (MasterSalt exampleSalt)\<rparr>)).
               cp_Hash (Checkpoints (exampleResult\<lparr>Parameters := deriveAdaptiveParameters examplePrims [1] (MasterSalt exampleSalt)\<rparr>) ! i)
                 \<noteq> cp_Hash (Checkpoints st ! i))) \<Longrightarrow>
      VerifyHardenedHash examplePrims exampleRuntime hasher256 [1] (Some st) = Inr False"
  proof -
    fix st :: HardenedSaltedHash
    assume "Salt st = Some exampleSalt" "HashSize st = 256"
      and "Hash (exampleResult\<lparr>Parameters := deriveAdaptiveParameters examplePrims [1] (MasterSalt exampleSalt)\<rparr>) \<noteq> Hash st
        \<or> length (Checkpoints (exampleResult\<lparr>Parameters := deriveAdaptiveParameters examplePrims [1] (MasterSalt exampleSalt)\<rparr>))
            \<noteq> length (Checkpoints st)
        \<or> (\<exists>i<length (Checkpoints (exampleResult\<lparr>Parameters := deriveAdaptiveParameters examplePrims [1] (MasterSalt exampleSalt)\<rparr>)).
               cp_Hash (Checkpoints (exampleResult\<lparr>Parameters := deriveAdaptiveParameters examplePrims [1] (MasterSalt exampleSalt)\<rparr>) ! i)
                 \<noteq> cp_Hash (Checkpoints st ! i))"
    with T [of "Some st"] compute_example_verify
    show "VerifyHardenedHash examplePrims exampleRuntime hasher256 [1] (Some st) = Inr False"
      by (simp only: hashSize_hasher256)
  qed
  have d: "VerifyHardenedHash examplePrims exampleRuntime hasher256 [1]
        (Some (exampleResult\<lparr>Hash := replicate 32 0\<rparr>)) = Inr False"
    by (rule F) (simp_all add: exampleResult_def originDigest_not_zero)
  have e: "VerifyHardenedHash examplePrims exampleRuntime hasher256 [1]
        (Some (exampleResult\<lparr>Checkpoints := [hd exampleCheckpoints]\<rparr>)) = Inr False"
    by (rule F) (simp_all add: exampleResult_def exampleCheckpoints_def)
  have g: "VerifyHardenedHash examplePrims exampleRuntime hasher256 [1]
        (Some (exampleResult\<lparr>Checkpoints := map (\<lambda>c. c\<lparr>cp_Hash := ''x''\<rparr>) exampleCheckpoints\<rparr>))
        = Inr False"
  proof (rule F)
    have "base64 examplePrims originDigest \<noteq> ''x''"
      by (simp add: examplePrims_def originDigest_def)
    then show "Hash (exampleResult\<lparr>Parameters := deriveAdaptiveParameters examplePrims [1] (MasterSalt exampleSalt)\<rparr>)
         \<noteq> Hash (exampleResult\<lparr>Checkpoints := map (\<lambda>c. c\<lparr>cp_Hash := ''x''\<rparr>) exampleCheckpoints\<rparr>)
        \<or> length (Checkpoints (exampleResult\<lparr>Parameters := deriveAdaptiveParameters examplePrims [1] (MasterSalt exampleSalt)\<rparr>))
            \<noteq> length (Checkpoints (exampleResult\<lparr>Checkpoints := map (\<lambda>c. c\<lparr>cp_Hash := ''x''\<rparr>) exampleCheckpoints\<rparr>))
        \<or> (\<exists>i<length (Checkpoints (exampleResult\<lparr>Parameters := deriveAdaptiveParameters examplePrims [1] (MasterSalt exampleSalt)\<rparr>)).
               cp_Hash (Checkpoints (exampleResult\<lparr>Parameters := deriveAdaptiveParameters examplePrims [1] (MasterSalt exampleSalt)\<rparr>) ! i)
                 \<noteq> cp_Hash (Checkpoints (exampleResult\<lparr>Checkpoints := map (\<lambda>c. c\<lparr>cp_Hash := ''x''\<rparr>) exampleCheckpoints\<rparr>) ! i))"
      by (intro disjI2 exI [of _ 0]) (simp add: exampleResult_def exampleCheckpoints_def)
  qed (simp_all add: exampleResult_def)
  from a b c d e g show ?thesis by blast
qed

text \<open>
  C8. When \<^verbatim>\<open>TrajectoryToHashBig\<close> returns a block, the block has \<open>outSize\<close> bytes and is
  the XOR fold of the (non-empty) entropy stream of the call: byte \<open>i\<close> is
  \<open>stream[i mod len] XOR stream[(i*7) mod len]\<close> after round 1; round 2 XORs in the stream
  bytes at \<open>(i*11) mod len\<close> and \<open>(i*13) mod len\<close>; and for output sizes of at least 48, 64
  and 128 bytes rounds 3, 4 and 5 XOR in the pairs at the strides (17, 19), (23, 29) and
  (31, 37).
\<close>

theorem TrajectoryToHashBig_xor_fold:
  assumes "TrajectoryToHashBig x0 y0 z0 sigma rho beta dt iterations discard outSize = Inr hash"
  shows "\<exists>vx vy vz vsigma vrho vbeta vdt stream.
     x0 = Some vx \<and> y0 = Some vy \<and> z0 = Some vz \<and> sigma = Some vsigma \<and> rho = Some vrho
     \<and> beta = Some vbeta \<and> dt = Some vdt
     \<and> entropyStream vx vy vz vsigma vrho vbeta vdt iterations discard outSize = Inr stream
     \<and> stream \<noteq> [] \<and> length hash = nat outSize
     \<and> (\<forall>i<nat outSize. hash ! i =
          (let n = length stream;
               r1 = stream ! (i mod n) XOR stream ! ((i * 7) mod n);
               r2 = r1 XOR stream ! ((i * 11) mod n) XOR stream ! ((i * 13) mod n);
               r3 = (if 48 \<le> outSize
                     then r2 XOR stream ! ((i * 17) mod n) XOR stream ! ((i * 19) mod n) else r2);
               r4 = (if 64 \<le> outSize
                     then r3 XOR stream ! ((i * 23) mod n) XOR stream ! ((i * 29) mod n) else r3);
               r5 = (if 128 \<le> outSize
                     then r4 XOR stream ! ((i * 31) mod n) XOR stream ! ((i * 37) mod n) else r4)
           in r5))"
proof -
  from TrajectoryToHashBig_Inr [OF assms]
  obtain vx vy vz vsigma vrho vbeta vdt stream where
    a: "x0 = Some vx" "y0 = Some vy" "z0 = Some vz" "sigma = Some vsigma" "rho = Some vrho"
      "beta = Some vbeta" "dt = Some vdt"
      "entropyStream vx vy vz vsigma vrho vbeta vdt iterations discard outSize = Inr stream"
      "stream \<noteq> []" "hash = xorFold outSize stream"
    by blast
  have "length hash = nat outSize" by (simp add: a(10))
  moreover have "\<forall>i<nat outSize. hash ! i =
          (let n = length stream;
               r1 = stream ! (i mod n) XOR stream ! ((i * 7) mod n);
               r2 = r1 XOR stream ! ((i * 11) mod n) XOR stream ! ((i * 13) mod n);
               r3 = (if 48 \<le> outSize
                     then r2 XOR stream ! ((i * 17) mod n) XOR stream ! ((i * 19) mod n) else r2);
               r4 = (if 64 \<le> outSize
                     then r3 XOR stream ! ((i * 23) mod n) XOR stream ! ((i * 29) mod n) else r3);
               r5 = (if 128 \<le> outSize
                     then r4 XOR stream ! ((i * 31) mod n) XOR stream ! ((i * 37) mod n) else r4)
           in r5)"
    unfolding a(10) by (intro allI impI nth_xorFold)
  ultimately show ?thesis using a by blast
qed

lemma xorFold_example: "xorFold 2 [1, 2, 4, 8, 16] = [0, 12]"
  by code_simp

lemma trajectory_example_128:
  "TrajectoryToHashBig (Some \<lparr>bprec = 128, bval = 0\<rparr>) (Some \<lparr>bprec = 128, bval = 0\<rparr>)
           (Some \<lparr>bprec = 128, bval = 0\<rparr>)
           (Some (f (float64_lit 10))) (Some (f (float64_lit 28))) (Some (f (float64_lit (8/3))))
           (Some (f (float64_lit (1/100)))) 2000 1256 128 = Inr (replicate 128 0)"
proof -
  have d: "2 powi (- 8) \<le> (1/100::rat)" "(1/100::rat) \<le> 2 powi (- 4)"
    by (simp_all add: power_int_minus)
  have "TrajectoryToHashBig (Some \<lparr>bprec = 128, bval = 0\<rparr>) (Some \<lparr>bprec = 128, bval = 0\<rparr>)
           (Some \<lparr>bprec = 128, bval = 0\<rparr>)
           (Some (f (float64_lit 10))) (Some (f (float64_lit 28))) (Some (f (float64_lit (8/3))))
           (Some (f (float64_lit (1/100)))) 2000 1256 128 = Inr (replicate (nat 128) 0)"
    by (rule TrajectoryToHashBig_origin [OF _ _ _ _ _ _ _ coefficient_in_range
          coefficient_in_range coefficient_in_range dt_in_range [OF d]])
       (simp_all add: MinIterations_def MaxIterations_def)
  then show ?thesis by simp
qed

theorem TrajectoryToHashBig_xor_fold_witness:
  "TrajectoryToHashBig (Some \<lparr>bprec = 128, bval = 0\<rparr>) (Some \<lparr>bprec = 128, bval = 0\<rparr>)
           (Some \<lparr>bprec = 128, bval = 0\<rparr>)
           (Some (f (float64_lit 10))) (Some (f (float64_lit 28))) (Some (f (float64_lit (8/3))))
           (Some (f (float64_lit (1/100)))) 2000 1256 128 = Inr (replicate 128 0)
   \<and> entropyStream \<lparr>bprec = 128, bval = 0\<rparr> \<lparr>bprec = 128, bval = 0\<rparr> \<lparr>bprec = 128, bval = 0\<rparr>
        (f (float64_lit 10)) (f (float64_lit 28)) (f (float64_lit (8/3))) (f (float64_lit (1/100)))
        2000 1256 128 = Inr (replicate 24000 0)
   \<and> length (replicate 128 (0::byte)) = nat 128
   \<and> replicate 128 (0::byte) ! 5 =
        replicate 24000 0 ! (5 mod 24000) XOR replicate 24000 0 ! (35 mod 24000)
        XOR replicate 24000 0 ! (55 mod 24000) XOR replicate 24000 0 ! (65 mod 24000)
        XOR replicate 24000 0 ! (85 mod 24000) XOR replicate 24000 0 ! (95 mod 24000)
        XOR replicate 24000 0 ! (115 mod 24000) XOR replicate 24000 0 ! (145 mod 24000)
        XOR replicate 24000 0 ! (155 mod 24000) XOR replicate 24000 0 ! (185 mod 24000)"
proof -
  have s: "entropyStream \<lparr>bprec = 128, bval = 0\<rparr> \<lparr>bprec = 128, bval = 0\<rparr> \<lparr>bprec = 128, bval = 0\<rparr>
        (f (float64_lit 10)) (f (float64_lit 28)) (f (float64_lit (8/3))) (f (float64_lit (1/100)))
        2000 1256 128 = Inr (replicate 24000 0)"
    by (simp add: entropyStream_origin bytesPerStep_def)
  from TrajectoryToHashBig_xor_fold [OF trajectory_example_128]
  obtain stream where st: "entropyStream \<lparr>bprec = 128, bval = 0\<rparr> \<lparr>bprec = 128, bval = 0\<rparr> \<lparr>bprec = 128, bval = 0\<rparr>
        (f (float64_lit 10)) (f (float64_lit 28)) (f (float64_lit (8/3))) (f (float64_lit (1/100)))
        2000 1256 128 = Inr stream"
    and l: "length (replicate 128 (0::byte)) = nat 128"
    and n: "\<forall>i<nat 128. replicate 128 (0::byte) ! i =
          (let n = length stream;
               r1 = stream ! (i mod n) XOR stream ! ((i * 7) mod n);
               r2 = r1 XOR stream ! ((i * 11) mod n) XOR stream ! ((i * 13) mod n);
               r3 = (if 48 \<le> (128::int)
                     then r2 XOR stream ! ((i * 17) mod n) XOR stream ! ((i * 19) mod n) else r2);
               r4 = (if 64 \<le> (128::int)
                     then r3 XOR stream ! ((i * 23) mod n) XOR stream ! ((i * 29) mod n) else r3);
               r5 = (if 128 \<le> (128::int)
                     then r4 XOR stream ! ((i * 31) mod n) XOR stream ! ((i * 37) mod n) else r4)
           in r5)"
    by auto
  have "stream = replicate 24000 0" using st s by simp
  with n [rule_format, of 5] show ?thesis
    using trajectory_example_128 s by (simp add: Let_def)
qed

end
